theory Spec2Isabelle
  imports Complex_Main
begin

section \<open>Errors and Python slicing\<close>

text \<open>
  Every exception the modelled code can raise is a value of \<open>error\<close>; a computation that
  may raise returns \<open>error + 'a\<close> with \<open>Inl\<close> for the exception.
\<close>

datatype error =
    AssertionError | ValueError | RuntimeError | KeyError | TypeError
  | AttributeError | IndexError | NameError | ZeroDivisionError | NotImplementedError

text \<open>
  Python's \<open>xs[lo:hi]\<close> for integer bounds: a negative bound counts from the end,
  and both bounds are clipped to the length.
\<close>

definition py_index :: "nat \<Rightarrow> int \<Rightarrow> nat" where
  "py_index n i = (if i < 0 then nat (int n + i) else min n (nat i))"

definition py_slice :: "int \<Rightarrow> int \<Rightarrow> 'a list \<Rightarrow> 'a list" where
  "py_slice lo hi xs =
     (let a = py_index (length xs) lo; b = py_index (length xs) hi
      in take (b - a) (drop a xs))"

section \<open>The scorer object\<close>

text \<open>\<open>sys.maxsize\<close> of a 64-bit CPython.\<close>

definition sys_maxsize :: int where
  "sys_maxsize = 2 ^ 63 - 1"

record dictionary =
  pad_index :: nat
  eos_index :: nat
  bos_index :: nat
  symbols :: "string list"

record args =
  args_softmax_batch :: "int option"
  save_top_pred :: bool
  save_knnlm_dstore :: bool
  knnlm :: bool
  knn_keytype :: string
  fp16 :: bool
  lmbda :: real
  dstore_size :: int
  dstore_fp16 :: bool
  decoder_embed_dim :: nat
  add_bos_token :: bool
  remove_bpe :: "string option"

record scorer =
  pad :: nat
  eos :: nat
  softmax_batch :: int
  compute_alignment :: bool
  scorer_args :: args
  top_preds :: "unit list option"

text \<open>
  \<open>SequenceScorer.__init__\<close>: \<open>softmax_batch or sys.maxsize\<close> takes the second operand
  when the first is \<open>None\<close> or \<open>0\<close>; the assertion comes next; \<open>self.args.save_top_pred\<close>
  is an attribute access on \<open>None\<close> when no \<open>args\<close> was passed.
\<close>

definition SequenceScorer_init ::
  "dictionary \<Rightarrow> int option \<Rightarrow> bool \<Rightarrow> args option \<Rightarrow> error + scorer" where
  "SequenceScorer_init tgt_dict sb ca a =
     (let m = (case sb of None \<Rightarrow> sys_maxsize
                | Some n \<Rightarrow> if n = 0 then sys_maxsize else n)
      in if \<not> 0 < m then Inl AssertionError
         else case a of
                None \<Rightarrow> Inl AttributeError
              | Some ar \<Rightarrow>
                  Inr \<lparr>pad = pad_index tgt_dict, eos = eos_index tgt_dict,
                       softmax_batch = m, compute_alignment = ca, scorer_args = ar,
                       top_preds = (if save_top_pred ar then Some [] else None)\<rparr>)"

section \<open>Tensors\<close>

text \<open>
  A tensor is a nested list, outermost dimension first. The sizes of a three-dimensional
  tensor are read off the first row of each level.
\<close>

type_synonym tensor2 = "real list list"
type_synonym tensor3 = "real list list list"
type_synonym tokens2 = "nat list list"

definition size0 :: "'a list \<Rightarrow> nat" where
  "size0 t = length t"

definition size1 :: "'a list list \<Rightarrow> nat" where
  "size1 t = (case t of [] \<Rightarrow> 0 | r # _ \<Rightarrow> length r)"

definition size2 :: "'a list list list \<Rightarrow> nat" where
  "size2 t = (case t of [] \<Rightarrow> 0 | r # _ \<Rightarrow> size1 r)"

definition is_tensor2 :: "nat \<Rightarrow> nat \<Rightarrow> 'a list list \<Rightarrow> bool" where
  "is_tensor2 b t x = (length x = b \<and> list_all (\<lambda>r. length r = t) x)"

definition is_tensor3 :: "nat \<Rightarrow> nat \<Rightarrow> nat \<Rightarrow> 'a list list list \<Rightarrow> bool" where
  "is_tensor3 b t d x = (length x = b \<and> list_all (is_tensor2 t d) x)"

section \<open>Decoder output and the Batch Softmax Splitter\<close>

text \<open>
  A decoder output is a tuple: its first component is the tensor of scores
  (batch, time, dim) and the remaining components carry auxiliary state. The second
  component is either \<open>None\<close>, an attention tensor, or a dictionary from names to tensors
  (attention under \<open>''attn''\<close>, hidden states under the name of an extraction point).
\<close>

datatype aux = AuxNone | AuxTensor tensor3 | AuxDict "string \<Rightarrow> tensor3 option"

type_synonym dec_out = "tensor3 \<times> aux list"

text \<open>What the splitter yields: the chunk's decoder output, its target, and \<open>is_single\<close>.\<close>

type_synonym chunk = "dec_out \<times> tokens2 \<times> bool"

definition chunk_at :: "int \<Rightarrow> real list list \<Rightarrow> nat list \<Rightarrow> aux list \<Rightarrow> int \<Rightarrow> chunk" where
  "chunk_at M flat flat_tgt rest s =
     (([py_slice s (s + M) flat], rest), [py_slice s (s + M) flat_tgt], False)"

text \<open>
  The \<open>while s < flat.size(1)\<close> loop of \<open>batch_for_softmax\<close>. It does not return when the
  step is not positive, so its value is an option.
\<close>

partial_function (option) chunk_loop ::
  "int \<Rightarrow> real list list \<Rightarrow> nat list \<Rightarrow> aux list \<Rightarrow> int \<Rightarrow> chunk list option" where
  "chunk_loop M flat flat_tgt rest s =
     (if s < int (length flat)
      then Option.bind (chunk_loop M flat flat_tgt rest (s + M))
             (\<lambda>cs. Some (chunk_at M flat flat_tgt rest s # cs))
      else Some [])"

text \<open>
  \<open>batch_for_softmax\<close>, with the ceiling \<open>self.softmax_batch\<close> as \<open>M\<close>. The view of the
  target to the flattened leading shape fails when the target has another number of
  elements.
\<close>

definition batch_for_softmax :: "int \<Rightarrow> dec_out \<Rightarrow> tokens2 \<Rightarrow> (error + chunk list) option" where
  "batch_for_softmax M dec_out tgt =
     (let first = fst dec_out; rest = snd dec_out;
          bsz = size0 first; tsz = size1 first
      in if int (bsz * tsz) < M then Some (Inr [(dec_out, tgt, True)])
         else let flat = concat first; flat_tgt = concat tgt
              in if length flat_tgt \<noteq> length flat then Some (Inl RuntimeError)
                 else map_option Inr (chunk_loop M flat flat_tgt rest 0))"

section \<open>Tensor operations of the scorer\<close>

text \<open>
  Floating-point tensors are modelled over the reals: \<open>half()\<close> and \<open>float()\<close> are the
  identity, and a value is never infinite. A shape mismatch that torch reports is a
  \<open>RuntimeError\<close>.
\<close>

definition nth_opt :: "'a list \<Rightarrow> nat \<Rightarrow> 'a option" where
  "nth_opt xs i = (if i < length xs then Some (xs ! i) else None)"

text \<open>
  \<open>gather_target_probs\<close>: \<open>probs.gather(dim=2, index=target.unsqueeze(-1))\<close>. The index
  may be smaller than \<open>probs\<close> in the first two dimensions and every token must index
  into the last one; the result has the shape of the index, (batch, time, 1).
\<close>

definition gather_row :: "real list list \<Rightarrow> nat list \<Rightarrow> real list list option" where
  "gather_row p idx =
     (if length idx \<le> length p
      then those (map2 (\<lambda>v k. map_option (\<lambda>x. [x]) (nth_opt v k)) p idx)
      else None)"

definition gather_target_probs :: "tensor3 \<Rightarrow> tokens2 \<Rightarrow> error + tensor3" where
  "gather_target_probs probs tgt =
     (if length tgt \<le> length probs
      then (case those (map2 gather_row probs tgt) of
              None \<Rightarrow> Inl RuntimeError
            | Some g \<Rightarrow> Inr g)
      else Inl RuntimeError)"

text \<open>
  \<open>combine_knn_and_vocab_probs\<close>: the two tensors are stacked (vocabulary first), the
  logarithms of \<open>1 - coeff\<close> and \<open>coeff\<close> are added to the two layers, and
  \<open>torch.logsumexp\<close> reduces the new axis. The source is generic in the shape; it is
  applied to a (batch, time) and to a (batch, time, vocabulary) tensor.
\<close>

definition logsumexp2 :: "real \<Rightarrow> real \<Rightarrow> real" where
  "logsumexp2 x y = ln (exp x + exp y)"

definition combine_elem :: "real \<Rightarrow> real \<Rightarrow> real \<Rightarrow> real" where
  "combine_elem knn_p vocab_p coeff =
     logsumexp2 (vocab_p + ln (1 - coeff)) (knn_p + ln coeff)"

definition combine_knn_and_vocab_probs :: "tensor2 \<Rightarrow> tensor2 \<Rightarrow> real \<Rightarrow> error + tensor2" where
  "combine_knn_and_vocab_probs knn_p vocab_p coeff =
     (if map length knn_p = map length vocab_p
      then Inr (map2 (map2 (\<lambda>k v. combine_elem k v coeff)) knn_p vocab_p)
      else Inl RuntimeError)"

definition combine_knn_and_vocab_probs3 :: "tensor3 \<Rightarrow> tensor3 \<Rightarrow> real \<Rightarrow> error + tensor3" where
  "combine_knn_and_vocab_probs3 knn_p vocab_p coeff =
     (if map (map length) knn_p = map (map length) vocab_p
      then Inr (map2 (map2 (map2 (\<lambda>k v. combine_elem k v coeff))) knn_p vocab_p)
      else Inl RuntimeError)"

text \<open>
  Modelled from the spec: \<open>utils.strip_pad\<close> is not among the sources; the spec has the
  reference tokens with padding stripped.
\<close>

definition strip_pad :: "nat list \<Rightarrow> nat \<Rightarrow> nat list" where
  "strip_pad xs p = filter (\<lambda>x. x \<noteq> p) xs"

text \<open>
  \<open>torch.topk(x, k, dim=-1)\<close>, the indices: the \<open>k\<close> largest entries of every innermost
  row, largest first. It raises when the dimension has fewer than \<open>k\<close> entries. Torch
  leaves the order of equal entries open; here they come in index order.
\<close>

definition topk_row :: "nat \<Rightarrow> real list \<Rightarrow> nat list" where
  "topk_row k v = take k (map snd (sort_key (\<lambda>p. - fst p) (zip v [0..<length v])))"

definition topk :: "nat \<Rightarrow> tensor3 \<Rightarrow> error + nat list list list" where
  "topk k x =
     (if list_all (list_all (\<lambda>v. k \<le> length v)) x
      then Inr (map (map (topk_row k)) x)
      else Inl RuntimeError)"

text \<open>A view of a flat storage as \<open>b\<close> rows of \<open>t\<close> entries, row-major.\<close>

fun chop_rows :: "nat \<Rightarrow> nat \<Rightarrow> 'a list \<Rightarrow> 'a list list" where
  "chop_rows 0 t xs = []"
| "chop_rows (Suc b) t xs = take t xs # chop_rows b t (drop t xs)"

definition add2 :: "tensor2 \<Rightarrow> tensor2 \<Rightarrow> tensor2" where
  "add2 a b = map2 (map2 (+)) a b"

definition add3 :: "tensor3 \<Rightarrow> tensor3 \<Rightarrow> error + tensor3" where
  "add3 a b =
     (if map (map length) a = map (map length) b
      then Inr (map2 (map2 (map2 (+))) a b)
      else Inl RuntimeError)"

section \<open>Samples, models and hypotheses\<close>

record net_input =
  src_tokens :: tokens2
  src_lengths :: "nat list"

text \<open>
  A sample is a dictionary; \<open>net_input\<close> and \<open>start_indices\<close> may be absent. The target of
  a language-modelling batch is a (batch, time) tensor of token ids.
\<close>

record sample =
  net_input_of :: "net_input option"
  target :: tokens2
  ids :: "int list"
  start_indices :: "nat list option"

text \<open>
  A model is an opaque provider: its forward pass, its normalisation (to log-probabilities
  when the flag is set, reading the sample) and \<open>fresh\<close>, the content of storage that
  \<open>curr_prob.new(...)\<close> allocates and does not initialise.
\<close>

record lm =
  forward :: "net_input \<Rightarrow> dec_out"
  get_normalized_probs :: "dec_out \<Rightarrow> bool \<Rightarrow> sample \<Rightarrow> tensor3"
  fresh :: real

text \<open>
  The retrieval provider \<open>get_knn_log_prob\<close>: queries (time, batch, channel), targets
  (time, batch), sample ids, the pad index and the model's target probabilities
  (time, batch); it returns the retrieval log-probability of the target (time, batch, 1)
  and of the vocabulary (time, batch, vocabulary).
\<close>

type_synonym knn_dstore =
  "tensor3 \<Rightarrow> tokens2 \<Rightarrow> int list \<Rightarrow> nat \<Rightarrow> tensor2 \<Rightarrow> tensor3 \<times> tensor3"

text \<open>\<open>utils.extract_hard_alignment\<close> is not among the sources and is a parameter.\<close>

type_synonym aligner =
  "tensor2 \<Rightarrow> nat list \<Rightarrow> nat list \<Rightarrow> nat \<Rightarrow> nat \<Rightarrow> (nat \<times> nat) list"

record hypo =
  tokens :: "nat list"
  score :: "real option"
  attention :: "tensor2 option"
  alignment :: "(nat \<times> nat) list option"
  positional_scores :: "real list"
  dstore_keys :: "tensor2 option"
  predicted_topk :: "nat list list"

text \<open>
  The state \<open>generate\<close> works on: the sample, which it mutates, and the calls made to the
  providers so far.
\<close>

datatype event = Forward | Normalize | Query

record world =
  cur :: sample
  calls :: "event list"

section \<open>The Ensemble Scorer: \<open>SequenceScorer.generate\<close>\<close>

text \<open>
  The provider contract is that the normalised tensor has the leading shape of the
  chunk it was computed from. A provider that breaks it is a \<open>RuntimeError\<close> in the
  model; in the source the later views and assignments fail or reinterpret the storage.
\<close>

text \<open>
  The variables of the chunk loop: \<open>probs\<close> (held as its row-major storage),
  \<open>full_probs\<close> and \<open>idx\<close>; \<open>None\<close> is Python's \<open>None\<close>.
\<close>

record acc =
  acc_probs :: "real list option"
  acc_full :: "tensor3 option"
  acc_idx :: nat

definition init_acc :: acc where
  "init_acc = \<lparr>acc_probs = None, acc_full = None, acc_idx = 0\<rparr>"

text \<open>
  One iteration of \<open>for i, (bd, tgt, is_single) in enumerate(batched)\<close>: the sample's
  target is set to the chunk's, the model normalises, the probabilities of the target
  tokens are gathered and stored, and the sample's target is set back. An exception
  leaves the sample as it is at that point.
\<close>

definition softmax_step ::
  "lm \<Rightarrow> bool \<Rightarrow> tokens2 \<Rightarrow> chunk \<Rightarrow> world \<Rightarrow> acc \<Rightarrow> world \<times> (error + acc)" where
  "softmax_step m lp orig c w a =
     (case c of (bd, tgt, is_single) \<Rightarrow>
      let w1 = w\<lparr>cur := (cur w)\<lparr>target := tgt\<rparr>, calls := calls w @ [Normalize]\<rparr>;
          curr_prob = get_normalized_probs m bd lp (cur w1);
          V = size2 curr_prob;
          w2 = w1\<lparr>cur := (cur w1)\<lparr>target := orig\<rparr>\<rparr>
      in if \<not> is_tensor3 (size0 tgt) (size1 tgt) V curr_prob then (w1, Inl RuntimeError)
         else if is_single then
           (case gather_target_probs curr_prob orig of
              Inl e \<Rightarrow> (w1, Inl e)
            | Inr g \<Rightarrow>
                (w2, Inr (a\<lparr>acc_probs := Some (concat (concat g)),
                            acc_full := Some curr_prob\<rparr>)))
         else
           let numel = length (concat orig);
               probs0 = (case acc_probs a of
                           None \<Rightarrow> replicate numel (fresh m)
                         | Some p \<Rightarrow> p);
               full0 = (case acc_full a of
                          None \<Rightarrow> replicate (size0 curr_prob)
                                    (replicate numel (replicate V (fresh m)))
                        | Some f \<Rightarrow> f);
               step = size0 curr_prob * size1 curr_prob;
               e = step + acc_idx a
           in if numel < e \<or> size2 full0 \<noteq> V \<or> size0 full0 \<noteq> size0 curr_prob
              then (w1, Inl RuntimeError)
              else
                (case gather_target_probs curr_prob tgt of
                   Inl err \<Rightarrow> (w1, Inl err)
                 | Inr g \<Rightarrow>
                     (w2, Inr \<lparr>acc_probs =
                                 Some (take (acc_idx a) probs0 @ concat (concat g)
                                       @ drop e probs0),
                               acc_full =
                                 Some (map2 (\<lambda>f cp. take (acc_idx a) f @ cp @ drop e f)
                                         full0 curr_prob),
                               acc_idx = e\<rparr>)))"

fun softmax_loop ::
  "lm \<Rightarrow> bool \<Rightarrow> tokens2 \<Rightarrow> chunk list \<Rightarrow> world \<Rightarrow> acc \<Rightarrow> world \<times> (error + acc)" where
  "softmax_loop m lp orig [] w a = (w, Inr a)"
| "softmax_loop m lp orig (c # cs) w a =
     (case softmax_step m lp orig c w a of
        (w1, Inl e) \<Rightarrow> (w1, Inl e)
      | (w1, Inr a1) \<Rightarrow> softmax_loop m lp orig cs w1 a1)"

text \<open>
  After the chunk loop: exact zeros of \<open>full_probs\<close> become \<open>-1e4\<close>, \<open>probs\<close> is viewed in
  the target's shape and \<open>full_probs\<close> as (batch, time, -1), which torch refuses for an
  empty target.
\<close>

definition floor_zero :: "tensor3 \<Rightarrow> tensor3" where
  "floor_zero x = map (map (map (\<lambda>v. if v = 0 then - 10000 else v))) x"

definition finish_pass :: "tokens2 \<Rightarrow> acc \<Rightarrow> error + tensor2 \<times> tensor3" where
  "finish_pass orig a =
     (case acc_full a of
        None \<Rightarrow> Inl TypeError
      | Some full \<Rightarrow>
          (case acc_probs a of
             None \<Rightarrow> Inl AttributeError
           | Some p \<Rightarrow>
               let B = size0 orig; T = size1 orig; rows = concat (floor_zero full)
               in if length p \<noteq> B * T then Inl RuntimeError
                  else if B * T = 0 \<or> length rows \<noteq> B * T then Inl RuntimeError
                  else Inr (chop_rows B T p, chop_rows B T rows)))"

text \<open>\<open>decoder_out[1][key]\<close>: the second component must be a dictionary holding the key.\<close>

definition aux_key :: "dec_out \<Rightarrow> string \<Rightarrow> error + tensor3" where
  "aux_key d k =
     (case snd d of
        [] \<Rightarrow> Inl IndexError
      | a # _ \<Rightarrow>
          (case a of
             AuxDict f \<Rightarrow> (case f k of None \<Rightarrow> Inl KeyError | Some t \<Rightarrow> Inr t)
           | AuxTensor t \<Rightarrow> Inl IndexError
           | AuxNone \<Rightarrow> Inl TypeError))"

text \<open>
  The branch \<open>if 'knn_dstore' in kwargs\<close>: the queries are read, an ensemble is refused,
  the provider is queried and its two results are fused with the model's.
\<close>

definition knn_fuse ::
  "scorer \<Rightarrow> nat \<Rightarrow> knn_dstore \<Rightarrow> dec_out \<Rightarrow> tokens2 \<Rightarrow> world \<Rightarrow> tensor2 \<times> tensor3
     \<Rightarrow> world \<times> (error + tensor2 \<times> tensor3)" where
  "knn_fuse sc n dstore bd orig w pf =
     (case aux_key bd (knn_keytype (scorer_args sc)) of
        Inl e \<Rightarrow> (w, Inl e)
      | Inr queries \<Rightarrow>
          if n \<noteq> 1 then (w, Inl ValueError)
          else
            let w1 = w\<lparr>calls := calls w @ [Query]\<rparr>;
                r = dstore queries (transpose orig) (ids (cur w)) (pad sc) (transpose (fst pf));
                kp = transpose (fst r);
                yhat_knn_vocab_prob = transpose (snd r)
            in if \<not> list_all (list_all (\<lambda>v. length v = 1)) kp then (w1, Inl RuntimeError)
               else
                 (case combine_knn_and_vocab_probs (map concat kp) (fst pf)
                         (lmbda (scorer_args sc)) of
                    Inl e \<Rightarrow> (w1, Inl e)
                  | Inr probs \<Rightarrow>
                      (case combine_knn_and_vocab_probs3 yhat_knn_vocab_prob (snd pf)
                              (lmbda (scorer_args sc)) of
                         Inl e \<Rightarrow> (w1, Inl e)
                       | Inr full \<Rightarrow> (w1, Inr (probs, full)))))"

text \<open>What one iteration of \<open>for model in models\<close> leaves in the variables it assigns.\<close>

record pass =
  p_probs :: tensor2
  p_full :: tensor3
  p_attn :: "tensor3 option"
  p_dec :: dec_out

definition model_pass ::
  "scorer \<Rightarrow> nat \<Rightarrow> knn_dstore option \<Rightarrow> lm \<Rightarrow> tokens2 \<Rightarrow> net_input \<Rightarrow> world
     \<Rightarrow> (world \<times> (error + pass)) option" where
  "model_pass sc n kd m orig ni w =
     (let w1 = w\<lparr>calls := calls w @ [Forward]\<rparr>;
          decoder_out = forward m ni
      in case snd decoder_out of
           [] \<Rightarrow> Some (w1, Inl IndexError)
         | x # _ \<Rightarrow>
             let attn = (case x of AuxDict f \<Rightarrow> f ''attn''
                         | AuxTensor t \<Rightarrow> Some t
                         | AuxNone \<Rightarrow> None)
             in case batch_for_softmax (softmax_batch sc) decoder_out orig of
                  None \<Rightarrow> None
                | Some (Inl e) \<Rightarrow> Some (w1, Inl e)
                | Some (Inr batched) \<Rightarrow>
                    (case softmax_loop m (n = 1) orig batched w1 init_acc of
                       (w2, Inl e) \<Rightarrow> Some (w2, Inl e)
                     | (w2, Inr a) \<Rightarrow>
                         (case finish_pass orig a of
                            Inl e \<Rightarrow> Some (w2, Inl e)
                          | Inr pf \<Rightarrow>
                              (case kd of
                                 None \<Rightarrow>
                                   Some (w2, Inr \<lparr>p_probs = fst pf, p_full = snd pf,
                                                  p_attn = attn, p_dec = decoder_out\<rparr>)
                               | Some dstore \<Rightarrow>
                                   (case knn_fuse sc n dstore decoder_out orig w2 pf of
                                      (w3, Inl e) \<Rightarrow> Some (w3, Inl e)
                                    | (w3, Inr pf') \<Rightarrow>
                                        Some (w3, Inr \<lparr>p_probs = fst pf', p_full = snd pf',
                                                       p_attn = attn,
                                                       p_dec = decoder_out\<rparr>))))))"

text \<open>
  The variables that survive the loop over the models: the running sums \<open>avg_probs\<close> and
  \<open>avg_attn\<close>, and \<open>full_probs\<close> and \<open>decoder_out\<close> as the last iteration assigned them.
\<close>

record avg =
  avg_probs :: "tensor2 option"
  avg_attn :: "tensor3 option"
  last_full :: "tensor3 option"
  last_dec :: "dec_out option"

definition init_avg :: avg where
  "init_avg = \<lparr>avg_probs = None, avg_attn = None, last_full = None, last_dec = None\<rparr>"

definition accumulate :: "avg \<Rightarrow> pass \<Rightarrow> error + avg" where
  "accumulate s p =
     (let ap = (case avg_probs s of None \<Rightarrow> p_probs p | Some x \<Rightarrow> add2 x (p_probs p))
      in case p_attn p of
           None \<Rightarrow> Inr (s\<lparr>avg_probs := Some ap, last_full := Some (p_full p),
                          last_dec := Some (p_dec p)\<rparr>)
         | Some t \<Rightarrow>
             (case avg_attn s of
                None \<Rightarrow> Inr (s\<lparr>avg_probs := Some ap, avg_attn := Some t,
                               last_full := Some (p_full p), last_dec := Some (p_dec p)\<rparr>)
              | Some x \<Rightarrow>
                  (case add3 x t of
                     Inl e \<Rightarrow> Inl e
                   | Inr y \<Rightarrow> Inr (s\<lparr>avg_probs := Some ap, avg_attn := Some y,
                                    last_full := Some (p_full p),
                                    last_dec := Some (p_dec p)\<rparr>))))"

fun models_loop ::
  "scorer \<Rightarrow> nat \<Rightarrow> knn_dstore option \<Rightarrow> tokens2 \<Rightarrow> net_input \<Rightarrow> lm list \<Rightarrow> world \<Rightarrow> avg
     \<Rightarrow> (world \<times> (error + avg)) option" where
  "models_loop sc n kd orig ni [] w s = Some (w, Inr s)"
| "models_loop sc n kd orig ni (m # ms) w s =
     (case model_pass sc n kd m orig ni w of
        None \<Rightarrow> None
      | Some (w1, Inl e) \<Rightarrow> Some (w1, Inl e)
      | Some (w1, Inr p) \<Rightarrow>
          (case accumulate s p of
             Inl e \<Rightarrow> Some (w1, Inl e)
           | Inr s1 \<Rightarrow> models_loop sc n kd orig ni ms w1 s1))"

fun collect :: "(error + 'a) list \<Rightarrow> error + 'a list" where
  "collect [] = Inr []"
| "collect (x # xs) =
     (case x of
        Inl e \<Rightarrow> Inl e
      | Inr v \<Rightarrow> (case collect xs of Inl e \<Rightarrow> Inl e | Inr vs \<Rightarrow> Inr (v # vs)))"

text \<open>
  The body of \<open>for i in range(bsz)\<close>: one Hypothesis. The score is \<open>None\<close> when the
  division is by a reference length of zero (torch gives \<open>nan\<close>).
\<close>

definition make_hypo ::
  "scorer \<Rightarrow> aligner \<Rightarrow> sample \<Rightarrow> tensor2 \<Rightarrow> tensor3 option \<Rightarrow> nat list list list \<Rightarrow> dec_out
     \<Rightarrow> nat list \<Rightarrow> nat \<Rightarrow> error + hypo" where
  "make_hypo sc al s ap aa topk_tokens decoder_out start_idxs i =
     (case nth_opt start_idxs i of
        None \<Rightarrow> Inl IndexError
      | Some st \<Rightarrow>
     (case nth_opt (target s) i of
        None \<Rightarrow> Inl IndexError
      | Some row \<Rightarrow>
     (case nth_opt ap i of
        None \<Rightarrow> Inl IndexError
      | Some ap_row \<Rightarrow>
     (case nth_opt topk_tokens i of
        None \<Rightarrow> Inl IndexError
      | Some tk_row \<Rightarrow>
          let ref = strip_pad (drop st row) (pad sc);
              tgt_len = length ref;
              avg_probs_i = take tgt_len (drop st ap_row);
              score_i = (if tgt_len = 0 then None
                         else Some (sum_list avg_probs_i / real tgt_len));
              topk_tokens_i = take tgt_len (drop st tk_row);
              att = (case aa of
                       None \<Rightarrow> Inr (None, None)
                     | Some A \<Rightarrow>
                         (case nth_opt A i of
                            None \<Rightarrow> Inl IndexError
                          | Some avg_attn_i \<Rightarrow>
                              if compute_alignment sc
                              then (case net_input_of s of
                                      None \<Rightarrow> Inl KeyError
                                    | Some ni \<Rightarrow>
                                        (case nth_opt (src_tokens ni) i of
                                           None \<Rightarrow> Inl IndexError
                                         | Some src \<Rightarrow>
                                             Inr (Some avg_attn_i,
                                                  Some (al avg_attn_i src row (pad sc) (eos sc)))))
                              else Inr (Some avg_attn_i, None)));
              keys = (if save_knnlm_dstore (scorer_args sc)
                      then (case aux_key decoder_out (knn_keytype (scorer_args sc)) of
                              Inl e \<Rightarrow> Inl e
                            | Inr K \<Rightarrow>
                                if i < size1 K
                                then Inr (Some (map (\<lambda>r. r ! i) (drop st K)))
                                else Inl IndexError)
                      else Inr None)
          in case att of
               Inl e \<Rightarrow> Inl e
             | Inr (attention_i, alignment_i) \<Rightarrow>
                 (case keys of
                    Inl e \<Rightarrow> Inl e
                  | Inr k \<Rightarrow>
                      Inr \<lparr>tokens = ref, score = score_i, attention = attention_i,
                           alignment = alignment_i, positional_scores = avg_probs_i,
                           dstore_keys = k, predicted_topk = topk_tokens_i\<rparr>)))))"

text \<open>
  \<open>generate\<close>. The keyword argument \<open>knn_dstore\<close> is an option. The result is \<open>None\<close> when
  the call does not return, and otherwise the state at the return or at the exception
  together with the outcome. The source wraps every Hypothesis in a one-element list; the
  model returns the Hypotheses themselves.
\<close>

definition generate ::
  "scorer \<Rightarrow> aligner \<Rightarrow> lm list \<Rightarrow> knn_dstore option \<Rightarrow> world
     \<Rightarrow> (world \<times> (error + hypo list)) option" where
  "generate sc al models kd w =
     (case net_input_of (cur w) of
        None \<Rightarrow> Some (w, Inl KeyError)
      | Some ni \<Rightarrow>
          let orig_target = target (cur w) in
          (case models_loop sc (length models) kd orig_target ni models w init_avg of
             None \<Rightarrow> None
           | Some (w1, Inl e) \<Rightarrow> Some (w1, Inl e)
           | Some (w1, Inr s) \<Rightarrow>
               let n = length models;
                   ap = (if 1 < n
                         then map_option (map (map (\<lambda>x. ln (x / real n)))) (avg_probs s)
                         else avg_probs s);
                   aa = (if 1 < n
                         then map_option (map (map (map (\<lambda>x. x / real n)))) (avg_attn s)
                         else avg_attn s)
               in (case last_full s of
                     None \<Rightarrow> Some (w1, Inl NameError)
                   | Some full_probs \<Rightarrow>
                       (case topk 100 full_probs of
                          Inl e \<Rightarrow> Some (w1, Inl e)
                        | Inr topk_tokens \<Rightarrow>
                            (case ap of
                               None \<Rightarrow> Some (w1, Inl AttributeError)
                             | Some avg_probs' \<Rightarrow>
                                 (case last_dec s of
                                    None \<Rightarrow> Some (w1, Inl NameError)
                                  | Some decoder_out \<Rightarrow>
                                      let bsz = size0 avg_probs';
                                          start_idxs =
                                            (case start_indices (cur w1) of
                                               Some xs \<Rightarrow> xs
                                             | None \<Rightarrow> replicate bsz 0)
                                      in Some (w1,
                                           collect (map (make_hypo sc al (cur w1) avg_probs' aa
                                                           topk_tokens decoder_out start_idxs)
                                                      [0..<bsz]))))))))"

section \<open>The Evaluation Driver: \<open>main\<close>\<close>

text \<open>
  \<open>score_sum\<close> starts as the Python float \<open>0.\<close> and is a zero-dimensional tensor once a
  tensor was added to it; the division at the end raises for the first and does not for
  the second.
\<close>

datatype number = PyFloat real | Tensor0 real

text \<open>
  The variables of \<open>main\<close> that the loop over the batches changes: the two accumulators,
  the write cursor, the two memory-mapped arrays (values held as one column), the
  sample-to-range dictionary, the variable \<open>shape\<close> (unbound before the first write),
  the prediction lists, the literal lines printed, and the calls made to the providers.
\<close>

record driver =
  score_sum :: number
  count :: int
  dstore_idx :: int
  keys_mmap :: "real list list"
  vals_mmap :: "nat list"
  dstore_token_sample_map :: "int \<Rightarrow> (int \<times> int) option"
  shape_var :: "int list option"
  prediction_topk :: "nat list list list"
  prediction_ref :: "nat list list"
  stdout :: "string list"
  trace :: "event list"

definition init_driver :: driver where
  "init_driver =
     \<lparr>score_sum = PyFloat 0, count = 0, dstore_idx = 0, keys_mmap = [], vals_mmap = [],
      dstore_token_sample_map = (\<lambda>_. None), shape_var = None, prediction_topk = [],
      prediction_ref = [], stdout = [], trace = []\<rparr>"

text \<open>
  \<open>arr[lo:hi] = v\<close> on a numpy array, along the first axis: the slice is clipped to the
  array, and \<open>v\<close> must have as many rows as the slice or exactly one row, which is then
  broadcast; anything else is a \<open>ValueError\<close>.
\<close>

definition np_assign :: "int \<Rightarrow> int \<Rightarrow> 'a list \<Rightarrow> 'a list \<Rightarrow> error + 'a list" where
  "np_assign lo hi arr v =
     (let a = py_index (length arr) lo; b = py_index (length arr) hi; n = b - a
      in if length v = n then Inr (take a arr @ v @ drop (a + n) arr)
         else if length v = 1 then Inr (take a arr @ replicate n (hd v) @ drop (a + n) arr)
         else Inl ValueError)"

text \<open>
  The Datastore Writer, lines 195 to 215: the block under \<open>if args.save_knnlm_dstore\<close> for
  one Hypothesis. The two precisions differ in the element type only. The keys are rows
  of \<open>decoder_embed_dim\<close> numbers; other rows are a \<open>RuntimeError\<close>. The result is the
  state at the end of the block or at the exception.
\<close>

definition dstore_write :: "args \<Rightarrow> int \<Rightarrow> hypo \<Rightarrow> driver \<Rightarrow> driver \<times> error option" where
  "dstore_write ar sample_id h d =
     (case dstore_keys h of
        None \<Rightarrow> (d, Some AttributeError)
      | Some keys0 \<Rightarrow>
          let shape0 = int (length keys0);
              over = (dstore_idx d + shape0 > dstore_size ar);
              d1 = (if over then d\<lparr>stdout := stdout d @ [''ERROR! dstore_size exceeded!'']\<rparr>
                    else d);
              shape = (if over then [dstore_size ar - dstore_idx d]
                       else [shape0, int (size1 keys0)]);
              keys1 = (if over then py_slice 0 (hd shape) keys0 else keys0);
              actual_size = int (length (tokens h));
              d2 = d1\<lparr>shape_var := Some shape,
                      dstore_token_sample_map :=
                        (dstore_token_sample_map d1)
                          (sample_id \<mapsto> (dstore_idx d, actual_size + dstore_idx d))\<rparr>;
              rows = py_slice 0 actual_size keys1
          in if \<not> list_all (\<lambda>r. length r = decoder_embed_dim ar) rows
             then (d2, Some RuntimeError)
             else
               (case np_assign (dstore_idx d) (actual_size + dstore_idx d) (keys_mmap d) rows of
                  Inl e \<Rightarrow> (d2, Some e)
                | Inr k \<Rightarrow>
                    (case np_assign (dstore_idx d) (actual_size + dstore_idx d) (vals_mmap d)
                            (tokens h) of
                       Inl e \<Rightarrow> (d2\<lparr>keys_mmap := k\<rparr>, Some e)
                     | Inr v \<Rightarrow>
                         (d2\<lparr>keys_mmap := k, vals_mmap := v,
                             dstore_idx := dstore_idx d + actual_size\<rparr>, None))))"

text \<open>
  The loop \<open>for i in range(tgt_len - 1)\<close> that folds the score of a subword piece into
  the next position.
\<close>

fun bpe_loop ::
  "nat list \<Rightarrow> nat list \<Rightarrow> nat list \<Rightarrow> real list \<times> int \<Rightarrow> error + real list \<times> int" where
  "bpe_loop bpe toks [] st = Inr st"
| "bpe_loop bpe toks (i # rest) st =
     (case nth_opt toks i of
        None \<Rightarrow> Inl IndexError
      | Some t \<Rightarrow>
          if t \<in> set bpe
          then (if i + 1 < length (fst st)
                then bpe_loop bpe toks rest
                       (((fst st)[i + 1 := fst st ! (i + 1) + fst st ! i])[i := 0], snd st + 1)
                else Inl IndexError)
          else bpe_loop bpe toks rest st)"

text \<open>
  Lines 217 to 245 for one Hypothesis: the prediction lists grow, the leading symbol is
  checked and dropped when \<open>add_bos_token\<close> is set, subword scores are folded, and the
  accumulators are updated.
\<close>

definition accumulate_hypo ::
  "args \<Rightarrow> nat \<Rightarrow> nat list option \<Rightarrow> hypo \<Rightarrow> driver \<Rightarrow> driver \<times> error option" where
  "accumulate_hypo ar bos bpe_toks h d =
     (let tgt_len = length (tokens h);
          d1 = d\<lparr>prediction_topk := prediction_topk d @ [predicted_topk h],
                 prediction_ref := prediction_ref d @ [tokens h]\<rparr>;
          stripped =
            (if add_bos_token ar
             then (case tokens h of
                     [] \<Rightarrow> Inl IndexError
                   | t # ts \<Rightarrow> if t = bos then Inr (ts, drop 1 (positional_scores h))
                              else Inl AssertionError)
             else Inr (tokens h, positional_scores h))
      in case stripped of
           Inl e \<Rightarrow> (d1, Some e)
         | Inr (toks, pos_scores) \<Rightarrow>
             (case (case bpe_toks of
                      None \<Rightarrow> Inr (pos_scores, 0)
                    | Some bpe \<Rightarrow> bpe_loop bpe toks [0..<tgt_len - 1] (pos_scores, 0)) of
                Inl e \<Rightarrow> (d1, Some e)
              | Inr (ps, skipped_toks) \<Rightarrow>
                  (d1\<lparr>score_sum :=
                        Tensor0 ((case score_sum d1 of PyFloat x \<Rightarrow> x | Tensor0 x \<Rightarrow> x)
                                 + sum_list ps),
                      count := count d1 + int (length ps) - skipped_toks\<rparr>, None)))"

text \<open>The loop \<open>for i, hypos_i in enumerate(hypos)\<close>, from index \<open>i\<close> on.\<close>

fun hypos_loop ::
  "args \<Rightarrow> nat \<Rightarrow> nat list option \<Rightarrow> int list \<Rightarrow> nat \<Rightarrow> hypo list \<Rightarrow> driver
     \<Rightarrow> driver \<times> error option" where
  "hypos_loop ar bos bpe_toks sids i [] d = (d, None)"
| "hypos_loop ar bos bpe_toks sids i (h # hs) d =
     (case nth_opt sids i of
        None \<Rightarrow> (d, Some IndexError)
      | Some sample_id \<Rightarrow>
          (case (if save_knnlm_dstore ar then dstore_write ar sample_id h d else (d, None)) of
             (d1, Some e) \<Rightarrow> (d1, Some e)
           | (d1, None) \<Rightarrow>
               (case accumulate_hypo ar bos bpe_toks h d1 of
                  (d2, Some e) \<Rightarrow> (d2, Some e)
                | (d2, None) \<Rightarrow> hypos_loop ar bos bpe_toks sids (i + 1) hs d2)))"

text \<open>
  The loop over the batches. A sample without \<open>net_input\<close> is skipped. The scorer works
  on the sample of the batch; the driver keeps the calls it made. The result is \<open>None\<close>
  when a call of the scorer does not return.
\<close>

fun batches_loop ::
  "args \<Rightarrow> scorer \<Rightarrow> aligner \<Rightarrow> lm list \<Rightarrow> knn_dstore option \<Rightarrow> nat \<Rightarrow> nat list option
     \<Rightarrow> sample list \<Rightarrow> driver \<Rightarrow> (driver \<times> error option) option" where
  "batches_loop ar sc al models kd bos bpe_toks [] d = Some (d, None)"
| "batches_loop ar sc al models kd bos bpe_toks (s # ss) d =
     (case net_input_of s of
        None \<Rightarrow> batches_loop ar sc al models kd bos bpe_toks ss d
      | Some _ \<Rightarrow>
          (case generate sc al models kd \<lparr>cur = s, calls = trace d\<rparr> of
             None \<Rightarrow> None
           | Some (w, Inl e) \<Rightarrow> Some (d\<lparr>trace := calls w\<rparr>, Some e)
           | Some (w, Inr hypos) \<Rightarrow>
               (case hypos_loop ar bos bpe_toks (ids (cur w)) 0 hypos (d\<lparr>trace := calls w\<rparr>) of
                  (d1, Some e) \<Rightarrow> Some (d1, Some e)
                | (d1, None) \<Rightarrow> batches_loop ar sc al models kd bos bpe_toks ss d1)))"

text \<open>
  Lines 288 to 294: the average negative log-likelihood in base 2 and the perplexity.
  A float divided by the integer zero raises; a tensor divided by zero is not a number,
  and the report is \<open>None\<close>.
\<close>

definition avg_nll_loss :: "real \<Rightarrow> int \<Rightarrow> real" where
  "avg_nll_loss s c = - s / real_of_int c / ln 2"

definition finalize :: "number \<Rightarrow> int \<Rightarrow> error + (real \<times> real) option" where
  "finalize s c =
     (case s of
        PyFloat x \<Rightarrow>
          if c = 0 then Inl ZeroDivisionError
          else Inr (Some (avg_nll_loss x c, 2 powr avg_nll_loss x c))
      | Tensor0 x \<Rightarrow>
          if c = 0 then Inr None
          else Inr (Some (avg_nll_loss x c, 2 powr avg_nll_loss x c)))"

text \<open>\<open>str.rstrip()\<close> on ASCII text, and the set of symbols that end in the marker.\<close>

definition is_space :: "char \<Rightarrow> bool" where
  "is_space c = (let n = (of_char c :: nat) in (9 \<le> n \<and> n \<le> 13) \<or> (28 \<le> n \<and> n \<le> 32))"

definition rstrip :: "string \<Rightarrow> string" where
  "rstrip s = rev (dropWhile is_space (rev s))"

definition endswith :: "string \<Rightarrow> string \<Rightarrow> bool" where
  "endswith w s = (length s \<le> length w \<and> drop (length w - length s) w = s)"

definition bpe_tokens :: "args \<Rightarrow> string list \<Rightarrow> error + nat list option" where
  "bpe_tokens ar syms =
     (case remove_bpe ar of
        None \<Rightarrow> Inr None
      | Some r \<Rightarrow>
          if r = ''sentencepiece'' then Inl NotImplementedError
          else Inr (Some (filter (\<lambda>i. endswith (syms ! i) (rstrip r)) [0..<length syms])))"

text \<open>
  Lines 157 to 173: the state in which the loop starts. A datastore-building run prints
  the key type and the precision and maps the two arrays, which a new file fills with
  zeros.
\<close>

definition open_dstore :: "args \<Rightarrow> driver" where
  "open_dstore ar =
     (if save_knnlm_dstore ar
      then init_driver
             \<lparr>stdout := [''keytype being saved: '' @ knn_keytype ar,
                         (if dstore_fp16 ar then ''Saving fp16'' else ''Saving fp32'')],
              keys_mmap := replicate (nat (dstore_size ar))
                             (replicate (decoder_embed_dim ar) 0),
              vals_mmap := replicate (nat (dstore_size ar)) 0\<rparr>
      else init_driver)"

text \<open>
  \<open>main\<close>, from the assertion on the ensemble (line 108) to the report (line 294). The
  ensemble, the dictionaries, the retrieval provider that \<open>KNN_Dstore(args)\<close> builds and the
  batches of the iterator are arguments; loading them, the timers, the word statistics,
  the prints of numbers and the files written at the end are not modelled. The scorer is
  built without alignment. Mapping an array of no rows or no columns is refused by
  numpy. The result is \<open>None\<close> when the run does not return, and otherwise the driver's
  state at the end or at the exception, with the exception or the report (loss in base
  2, perplexity).
\<close>

definition main ::
  "args \<Rightarrow> dictionary \<Rightarrow> dictionary \<Rightarrow> aligner \<Rightarrow> lm list \<Rightarrow> knn_dstore \<Rightarrow> sample list
     \<Rightarrow> (driver \<times> (error + (real \<times> real) option)) option" where
  "main ar source_dictionary target_dictionary al models knn_provider batches =
     (if \<not> 0 < length models then Some (init_driver, Inl AssertionError)
      else
        (case SequenceScorer_init target_dictionary (args_softmax_batch ar) False (Some ar) of
           Inl e \<Rightarrow> Some (init_driver, Inl e)
         | Inr sc \<Rightarrow>
             (case bpe_tokens ar (symbols source_dictionary) of
                Inl e \<Rightarrow> Some (init_driver, Inl e)
              | Inr bpe_toks \<Rightarrow>
                  if knnlm ar \<and> save_knnlm_dstore ar then Some (init_driver, Inl ValueError)
                  else if save_knnlm_dstore ar
                          \<and> (dstore_size ar \<le> 0 \<or> decoder_embed_dim ar = 0)
                  then Some (open_dstore ar, Inl ValueError)
                  else
                    (case batches_loop ar sc al models
                            (if knnlm ar then Some knn_provider else None)
                            (bos_index target_dictionary) bpe_toks batches (open_dstore ar) of
                       None \<Rightarrow> None
                     | Some (d, Some e) \<Rightarrow> Some (d, Inl e)
                     | Some (d, None) \<Rightarrow>
                         if save_knnlm_dstore ar \<and> shape_var d = None
                         then Some (d, Inl NameError)
                         else Some (d, finalize (score_sum d) (count d))))))"

section \<open>Concrete inputs\<close>

text \<open>
  Inputs at which the properties below are evaluated: a dictionary of four symbols, the
  settings of a run with a datastore of five rows of one number each, the state in which
  a datastore-building run with these settings starts its loop, and Hypotheses of
  \<open>n\<close> tokens with as many keys.
\<close>

definition ex_dict :: dictionary where
  "ex_dict = \<lparr>pad_index = 1, eos_index = 2, bos_index = 0,
              symbols = [''<s>'', ''<pad>'', ''</s>'', ''a'']\<rparr>"

definition ex_args :: args where
  "ex_args = \<lparr>args_softmax_batch = None, save_top_pred = False, save_knnlm_dstore = False,
              knnlm = False, knn_keytype = ''last_ffn_input'', fp16 = False, lmbda = 1 / 4,
              dstore_size = 5, dstore_fp16 = False, decoder_embed_dim = 1,
              add_bos_token = False, remove_bpe = None\<rparr>"

definition ex_store :: driver where
  "ex_store = open_dstore (ex_args\<lparr>save_knnlm_dstore := True\<rparr>)"

definition ex_hypo :: "nat \<Rightarrow> hypo" where
  "ex_hypo n = \<lparr>tokens = replicate n 3, score = Some (- 1), attention = None,
                alignment = None, positional_scores = replicate n (- 1),
                dstore_keys = Some (replicate n [1]), predicted_topk = replicate n []\<rparr>"

text \<open>
  A scorer with a given ceiling, a model that is uniform over a vocabulary of one hundred
  symbols, a second model, and a batch of one sequence of three positions whose last one
  is padding.
\<close>

definition ex_scorer :: "int \<Rightarrow> scorer" where
  "ex_scorer M = \<lparr>pad = 1, eos = 2, softmax_batch = M, compute_alignment = False,
                  scorer_args = ex_args, top_preds = None\<rparr>"

definition ex_lm :: "real \<Rightarrow> lm" where
  "ex_lm c =
     \<lparr>forward = (\<lambda>ni. (map (map (\<lambda>t. [real t])) (src_tokens ni),
                         [AuxDict (\<lambda>k. if k = ''last_ffn_input''
                                        then Some [[[1]], [[1]], [[1]]] else None)])),
      get_normalized_probs =
        (\<lambda>bd lp s. map (map (\<lambda>_. replicate 100 (if lp then ln c else c))) (fst bd)),
      fresh = 0\<rparr>"

definition ex_sample :: sample where
  "ex_sample = \<lparr>net_input_of = Some \<lparr>src_tokens = [[3, 3, 1]], src_lengths = [3]\<rparr>,
                target = [[3, 3, 1]], ids = [10], start_indices = None\<rparr>"

definition ex_world :: world where
  "ex_world = \<lparr>cur = ex_sample, calls = []\<rparr>"

definition ex_align :: aligner where
  "ex_align a s t p e = []"

text \<open>A retrieval provider, for runs that fail before they query it.\<close>

definition ex_knn :: knn_dstore where
  "ex_knn q t i p l = ([], [])"

section \<open>Properties of the Batch Softmax Splitter\<close>

lemma py_slice_nonneg:
  "0 \<le> s \<Longrightarrow> 0 \<le> M \<Longrightarrow> py_slice s (s + M) xs = take (nat M) (drop (nat s) xs)"
  by (auto simp: py_slice_def py_index_def Let_def min_def nat_add_distrib)

lemma ceil_step:
  fixes M d :: int
  assumes "0 < M" "0 < d"
  shows "nat \<lceil>real_of_int d / real_of_int M\<rceil> = Suc (nat \<lceil>real_of_int (d - M) / real_of_int M\<rceil>)"
proof -
  have "real_of_int d / real_of_int M = real_of_int (d - M) / real_of_int M + 1"
    using assms by (simp add: field_simps)
  then have e: "\<lceil>real_of_int d / real_of_int M\<rceil> = \<lceil>real_of_int (d - M) / real_of_int M\<rceil> + 1"
    by (simp add: ceiling_add_one)
  have "0 < real_of_int d / real_of_int M" using assms by simp
  then have "0 < \<lceil>real_of_int d / real_of_int M\<rceil>" by (simp add: ceiling_less_iff)
  with e show ?thesis by linarith
qed

text \<open>With a positive step the loop returns, and yields one chunk per step.\<close>

lemma chunk_loop_total:
  assumes M: "0 < M"
  shows "chunk_loop M flat ft rest s =
     Some (map (\<lambda>k. chunk_at M flat ft rest (s + int k * M))
            [0 ..< nat \<lceil>real_of_int (int (length flat) - s) / real_of_int M\<rceil>])"
proof (induction "nat (int (length flat) - s)" arbitrary: s rule: less_induct)
  case less
  show ?case
  proof (cases "s < int (length flat)")
    case False
    then have "real_of_int (int (length flat) - s) / real_of_int M \<le> 0"
      using M by (simp add: divide_nonpos_pos)
    then have "nat \<lceil>real_of_int (int (length flat) - s) / real_of_int M\<rceil> = 0"
      by (simp add: ceiling_le_iff)
    with False show ?thesis by (subst chunk_loop.simps) simp
  next
    case True
    have "nat (int (length flat) - (s + M)) < nat (int (length flat) - s)"
      using True M by linarith
    from less[OF this] have IH: "chunk_loop M flat ft rest (s + M) =
       Some (map (\<lambda>k. chunk_at M flat ft rest (s + M + int k * M))
            [0 ..< nat \<lceil>real_of_int (int (length flat) - (s + M)) / real_of_int M\<rceil>])" .
    have c: "nat \<lceil>real_of_int (int (length flat) - s) / real_of_int M\<rceil>
        = Suc (nat \<lceil>real_of_int (int (length flat) - (s + M)) / real_of_int M\<rceil>)"
      using ceil_step[OF M, of "int (length flat) - s"] True by (simp add: algebra_simps)
    have u: "\<And>n. [0..<Suc n] = 0 # map Suc [0..<n]"
      by (simp add: upt_conv_Cons map_Suc_upt del: upt_Suc)
    have m: "\<And>n f. map f [0..<Suc n] = f 0 # map (\<lambda>k. f (Suc k)) [0..<n]"
      by (simp only: u list.map map_map comp_def)
    show ?thesis
      apply (subst chunk_loop.simps)
      apply (simp only: True if_True IH c m)
      apply (simp add: algebra_simps)
      done
  qed
qed

lemma concat_is_tensor2: "is_tensor2 b t x \<Longrightarrow> length (concat x) = b * t"
  unfolding is_tensor2_def
  by (induction x arbitrary: b) (auto simp: list_all_iff)

lemma is_tensor3_leading: "is_tensor3 b t d x \<Longrightarrow> is_tensor2 b t x"
  by (auto simp: is_tensor3_def is_tensor2_def list_all_iff)

lemma size01_is_tensor2: "is_tensor2 b t x \<Longrightarrow> size0 x * size1 x = b * t"
  by (cases x) (auto simp: is_tensor2_def size0_def size1_def)

lemma concat_pieces:
  "concat (map (\<lambda>k. take m (drop (k * m) xs)) [0..<c]) = take (c * m) xs"
proof (induction c)
  case 0
  show ?case by simp
next
  case (Suc c)
  have "take (c * m) xs @ take m (drop (c * m) xs) = take (c * m + m) xs"
    by (simp add: take_add)
  with Suc show ?case by (simp add: add.commute)
qed

lemma ceil_cover:
  fixes M :: int
  assumes "0 < M"
  shows "n \<le> nat \<lceil>real n / real_of_int M\<rceil> * nat M"
proof -
  have "real n / real_of_int M \<le> real_of_int \<lceil>real n / real_of_int M\<rceil>" by simp
  moreover have "0 < real_of_int M" using assms by simp
  ultimately have "real n \<le> real_of_int \<lceil>real n / real_of_int M\<rceil> * real_of_int M"
    by (simp only: pos_divide_le_eq)
  then have "int n \<le> \<lceil>real n / real_of_int M\<rceil> * M"
    by (metis of_int_le_iff of_int_mult of_int_of_nat_eq)
  moreover have "0 \<le> real n / real_of_int M" using assms by simp
  then have "0 \<le> \<lceil>real n / real_of_int M\<rceil>" by linarith
  ultimately show ?thesis using assms
    by (metis nat_int nat_mono nat_mult_distrib)
qed

lemma ceil_tight:
  fixes M :: int
  assumes "0 < M" "k < nat \<lceil>real n / real_of_int M\<rceil>"
  shows "k * nat M < n"
proof -
  have "int k < \<lceil>real n / real_of_int M\<rceil>" using assms(2) by linarith
  then have "real k < real n / real_of_int M" by (simp add: less_ceiling_iff)
  then have "real k * real_of_int M < real n" using assms(1) by (simp add: pos_less_divide_eq)
  then have "int k * M < int n" by (metis of_int_less_iff of_int_mult of_int_of_nat_eq)
  then show ?thesis using assms(1)
    by (metis nat_int nat_mult_distrib nat_less_iff of_nat_0_le_iff zero_le_mult_iff less_imp_le zless_nat_conj nat_mono_iff)
qed

text \<open>
  Claim C3. For a decoder output of leading shape \<open>bsz \<times> tsz\<close> and a positive ceiling
  \<open>M\<close>: below the ceiling the splitter yields the input and the target once, flagged as
  the whole batch; otherwise it returns \<open>\<lceil>bsz * tsz / M\<rceil>\<close> chunks, the \<open>k\<close>-th being
  positions \<open>k * M\<close> up to \<open>(k + 1) * M\<close> of the flattened output and target, each
  non-empty, of at most \<open>M\<close> positions and flagged as a sub-chunk, and the chunk targets
  (and outputs) concatenated in order are the flattened target (and output).
\<close>

theorem batch_for_softmax_chunks:
  assumes M: "0 < M"
    and F: "is_tensor3 bsz tsz d first"
    and T: "is_tensor2 bsz tsz tgt"
  shows "(int (bsz * tsz) < M \<longrightarrow>
            batch_for_softmax M (first, rest) tgt = Some (Inr [((first, rest), tgt, True)]))
       \<and> (M \<le> int (bsz * tsz) \<longrightarrow>
            (\<exists>cs. batch_for_softmax M (first, rest) tgt = Some (Inr cs)
               \<and> length cs = nat \<lceil>real (bsz * tsz) / real_of_int M\<rceil>
               \<and> (\<forall>k < length cs.
                     cs ! k = (([take (nat M) (drop (k * nat M) (concat first))], rest),
                               [take (nat M) (drop (k * nat M) (concat tgt))], False)
                   \<and> 0 < length (concat (fst (snd (cs ! k))))
                   \<and> int (length (concat (fst (snd (cs ! k))))) \<le> M)
               \<and> concat (map (\<lambda>c. concat (fst (snd c))) cs) = concat tgt
               \<and> concat (map (\<lambda>c. concat (fst (fst c))) cs) = concat first))"
proof -
  let ?n = "bsz * tsz"
  let ?c = "nat \<lceil>real ?n / real_of_int M\<rceil>"
  have lf: "length (concat first) = ?n"
    using F by (simp add: concat_is_tensor2 is_tensor3_leading)
  have lt: "length (concat tgt) = ?n"
    using T by (simp add: concat_is_tensor2)
  have sz: "int (size0 first * size1 first) = int ?n"
    using size01_is_tensor2[OF is_tensor3_leading[OF F]] by simp
  have whole: "int ?n < M \<longrightarrow>
      batch_for_softmax M (first, rest) tgt = Some (Inr [((first, rest), tgt, True)])"
    by (simp add: batch_for_softmax_def Let_def sz del: of_nat_mult)
  define cs where "cs = map (\<lambda>k. chunk_at M (concat first) (concat tgt) rest (int k * M)) [0..<?c]"
  have at: "\<And>k. chunk_at M (concat first) (concat tgt) rest (int k * M)
      = (([take (nat M) (drop (k * nat M) (concat first))], rest),
         [take (nat M) (drop (k * nat M) (concat tgt))], False)"
    using M by (simp add: chunk_at_def py_slice_nonneg nat_mult_distrib)
  have run: "M \<le> int ?n \<Longrightarrow> batch_for_softmax M (first, rest) tgt = Some (Inr cs)"
    using chunk_loop_total[OF M, of "concat first" "concat tgt" rest 0]
    by (simp add: batch_for_softmax_def Let_def sz lf lt cs_def del: of_nat_mult)
  have len: "length cs = ?c" by (simp add: cs_def)
  have nth: "\<And>k. k < length cs \<Longrightarrow>
       cs ! k = (([take (nat M) (drop (k * nat M) (concat first))], rest),
                 [take (nat M) (drop (k * nat M) (concat tgt))], False)"
    by (simp add: cs_def at)
  have pos: "\<And>k. k < length cs \<Longrightarrow> 0 < length (concat (fst (snd (cs ! k))))
        \<and> int (length (concat (fst (snd (cs ! k))))) \<le> M"
  proof -
    fix k assume k: "k < length cs"
    then have "k * nat M < ?n" using ceil_tight[OF M, of k ?n] len by simp
    then show "0 < length (concat (fst (snd (cs ! k))))
        \<and> int (length (concat (fst (snd (cs ! k))))) \<le> M"
      using M by (simp add: nth[OF k] lt)
  qed
  have cov: "?n \<le> ?c * nat M" by (rule ceil_cover[OF M])
  have ct: "concat (map (\<lambda>c. concat (fst (snd c))) cs) = concat tgt"
    using concat_pieces[of "nat M" "concat tgt" ?c] cov
    by (simp add: cs_def at comp_def lt)
  have cf: "concat (map (\<lambda>c. concat (fst (fst c))) cs) = concat first"
    using concat_pieces[of "nat M" "concat first" ?c] cov
    by (simp add: cs_def at comp_def lf)
  from whole run len nth pos ct cf show ?thesis by blast
qed

theorem batch_for_softmax_chunks_witness:
  "batch_for_softmax 4 ([[[1], [2], [3]]], []) [[5, 6, 7]]
      = Some (Inr [(([[[1], [2], [3]]], []), [[5, 6, 7]], True)])
   \<and> (\<exists>cs. batch_for_softmax 2 ([[[1], [2], [3]]], []) [[5, 6, 7]] = Some (Inr cs)
         \<and> length cs = 2
         \<and> cs ! 0 = (([[[1], [2]]], []), [[5, 6]], False)
         \<and> cs ! 1 = (([[[3]]], []), [[7]], False)
         \<and> concat (map (\<lambda>c. concat (fst (snd c))) cs) = [5, 6, 7])"
proof -
  have F: "is_tensor3 1 3 1 [[[1], [2], [3::real]]]"
    by (simp add: is_tensor3_def is_tensor2_def)
  have T: "is_tensor2 1 3 [[5, 6, 7::nat]]"
    by (simp add: is_tensor2_def)
  have c: "nat \<lceil>real (1 * 3) / real_of_int 2\<rceil> = 2" by simp
  have a: "batch_for_softmax 4 ([[[1], [2], [3]]], []) [[5, 6, 7]]
      = Some (Inr [(([[[1], [2], [3]]], []), [[5, 6, 7]], True)])"
    using batch_for_softmax_chunks[of 4 1 3 1 "[[[1], [2], [3]]]" "[[5, 6, 7]]" "[]", OF _ F T]
    by simp
  obtain cs where cs: "batch_for_softmax 2 ([[[1], [2], [3]]], []) [[5, 6, 7]] = Some (Inr cs)"
      "length cs = 2"
      "\<forall>k < length cs.
         cs ! k = (([take (nat 2) (drop (k * nat 2) (concat [[[1], [2], [3]]]))], []),
                   [take (nat 2) (drop (k * nat 2) (concat [[5, 6, 7]]))], False)
         \<and> 0 < length (concat (fst (snd (cs ! k))))
         \<and> int (length (concat (fst (snd (cs ! k))))) \<le> 2"
      "concat (map (\<lambda>c. concat (fst (snd c))) cs) = concat [[5, 6, 7]]"
    using batch_for_softmax_chunks[of 2 1 3 1 "[[[1], [2], [3]]]" "[[5, 6, 7]]" "[]", OF _ F T]
    unfolding c by auto
  from cs(2,3) have "cs ! 0 = (([[[1], [2]]], []), [[5, 6]], False)"
    and "cs ! 1 = (([[[3]]], []), [[7]], False)"
    by auto
  with a cs show ?thesis by auto
qed

section \<open>The scorer's construction\<close>

text \<open>
  Claim C9. When the configured \<open>softmax_batch\<close> is \<open>None\<close> or \<open>0\<close>, the scorer is built
  with the ceiling \<open>sys.maxsize\<close>, and every decoder output with fewer positions than that
  takes the whole-batch path; a negative \<open>softmax_batch\<close> fails the assertion.
\<close>

theorem SequenceScorer_init_ceiling:
  "(sb = None \<or> sb = Some 0 \<longrightarrow>
      (\<exists>sc. SequenceScorer_init td sb ca (Some ar) = Inr sc
         \<and> softmax_batch sc = sys_maxsize
         \<and> (\<forall>first rest tgt.
               int (size0 first * size1 first) < sys_maxsize \<longrightarrow>
               batch_for_softmax (softmax_batch sc) (first, rest) tgt
                 = Some (Inr [((first, rest), tgt, True)]))))
   \<and> (n < 0 \<longrightarrow> SequenceScorer_init td (Some n) ca a = Inl AssertionError)"
  by (auto simp: SequenceScorer_init_def sys_maxsize_def batch_for_softmax_def Let_def
           simp del: of_nat_mult split: option.splits)

theorem SequenceScorer_init_ceiling_witness:
  "(\<exists>sc. SequenceScorer_init ex_dict None False (Some ex_args) = Inr sc
        \<and> softmax_batch sc = sys_maxsize
        \<and> batch_for_softmax (softmax_batch sc) ([[[1], [2], [3]]], []) [[5, 6, 7]]
            = Some (Inr [(([[[1], [2], [3]]], []), [[5, 6, 7]], True)]))
   \<and> SequenceScorer_init ex_dict (Some (- 1)) False (Some ex_args) = Inl AssertionError"
proof -
  have s: "int (size0 [[[1], [2], [3::real]]] * size1 [[[1], [2], [3::real]]]) < sys_maxsize"
    by (simp add: size0_def size1_def sys_maxsize_def)
  from SequenceScorer_init_ceiling[of None ex_dict False ex_args "- 1" "Some ex_args"] s
  show ?thesis by auto
qed

section \<open>The Probability Combiner\<close>






section \<open>Finalisation\<close>

text \<open>
  Claim C6. At finalisation the driver computes the average negative log-likelihood in
  base 2 as minus the accumulated score sum, divided by the token count and by \<open>ln 2\<close>,
  and the perplexity as 2 to that power, which is the exponential of the average
  negative log-likelihood in nats. (Real arithmetic stands for the floating-point
  arithmetic of the source.)
\<close>

theorem finalize_perplexity:
  assumes "c \<noteq> 0"
  shows "finalize (Tensor0 s) c
           = Inr (Some (- s / real_of_int c / ln 2, 2 powr (- s / real_of_int c / ln 2)))
       \<and> avg_nll_loss s c = - s / real_of_int c / ln 2
       \<and> 2 powr (avg_nll_loss s c) = exp (- (s / real_of_int c))"
  using assms by (simp add: finalize_def avg_nll_loss_def powr_def)

theorem finalize_perplexity_witness:
  "finalize (Tensor0 (- 6)) 3 = Inr (Some (2 / ln 2, 2 powr (2 / ln 2)))
   \<and> 2 powr (avg_nll_loss (- 6) 3) = exp 2"
proof -
  have c: "(3::int) \<noteq> 0" by simp
  have "finalize (Tensor0 (- 6)) 3
           = Inr (Some (- (- 6) / real_of_int 3 / ln 2, 2 powr (- (- 6) / real_of_int 3 / ln 2)))"
    and "2 powr (avg_nll_loss (- 6) 3) = exp (- (- 6 / real_of_int 3))"
    using finalize_perplexity[OF c, of "- 6"] by blast+
  then show ?thesis by simp
qed

text \<open>The report of a run that ends without an exception is the finalisation of its sums.\<close>

lemma main_reports_finalize:
  assumes "main ar sd td al ms kp bs = Some (d, Inr r)"
  shows "finalize (score_sum d) (count d) = Inr r"
  using assms
  by (auto simp: main_def Let_def split: if_splits sum.splits option.splits prod.splits)

section \<open>The Datastore Writer\<close>

lemma list_all_replicate: "list_all P (replicate n x) = (n = 0 \<or> P x)"
  by (auto simp: list_all_iff)

text \<open>
  Claim C1, at a failing input. The datastore holds five rows. A Hypothesis of five
  tokens fills it; a second one of one token then triggers the overflow branch, yet the
  block ends without an exception and with the cursor at six.
\<close>

theorem dstore_cursor_exceeds_capacity:
  "dstore_size (ex_args\<lparr>save_knnlm_dstore := True\<rparr>) = 5
   \<and> snd (hypos_loop (ex_args\<lparr>save_knnlm_dstore := True\<rparr>) 0 None [10, 11] 0
             [ex_hypo 5, ex_hypo 1] ex_store) = None
   \<and> dstore_idx (fst (hypos_loop (ex_args\<lparr>save_knnlm_dstore := True\<rparr>) 0 None [10, 11] 0
             [ex_hypo 5, ex_hypo 1] ex_store)) = 6
   \<and> dstore_token_sample_map (fst (hypos_loop (ex_args\<lparr>save_knnlm_dstore := True\<rparr>) 0 None
             [10, 11] 0 [ex_hypo 5, ex_hypo 1] ex_store)) 11 = Some (5, 6)
   \<and> stdout (fst (hypos_loop (ex_args\<lparr>save_knnlm_dstore := True\<rparr>) 0 None [10, 11] 0
             [ex_hypo 5, ex_hypo 1] ex_store))
       = [''keytype being saved: last_ffn_input'', ''Saving fp32'',
          ''ERROR! dstore_size exceeded!'']"
  by (simp add: dstore_write_def ex_args_def ex_hypo_def ex_store_def open_dstore_def
        init_driver_def Let_def
        np_assign_def py_slice_def py_index_def size1_def nth_opt_def accumulate_hypo_def
        list_all_replicate)

text \<open>
  Claim C2, at a failing input. The datastore holds five rows and one Hypothesis brings
  fifteen tokens with fifteen keys. The overflow is reported and the keys are truncated,
  the range recorded for the sample is 0 to 15, and the assignment of the fifteen values
  to the five remaining rows raises \<open>ValueError\<close> with the cursor still at 0.
\<close>

theorem dstore_overflow_aborts:
  "snd (dstore_write (ex_args\<lparr>save_knnlm_dstore := True\<rparr>) 10 (ex_hypo 15) ex_store)
     = Some ValueError
   \<and> dstore_token_sample_map
       (fst (dstore_write (ex_args\<lparr>save_knnlm_dstore := True\<rparr>) 10 (ex_hypo 15) ex_store)) 10
     = Some (0, 15)
   \<and> stdout (fst (dstore_write (ex_args\<lparr>save_knnlm_dstore := True\<rparr>) 10 (ex_hypo 15) ex_store))
     = [''keytype being saved: last_ffn_input'', ''Saving fp32'',
        ''ERROR! dstore_size exceeded!'']
   \<and> dstore_idx (fst (dstore_write (ex_args\<lparr>save_knnlm_dstore := True\<rparr>) 10 (ex_hypo 15) ex_store))
     = 0"
  by (simp add: dstore_write_def ex_args_def ex_hypo_def ex_store_def open_dstore_def
        init_driver_def Let_def np_assign_def py_slice_def py_index_def size1_def
        list_all_replicate)

section \<open>The sample during \<open>generate\<close>\<close>

text \<open>A chunk step that ends without an exception leaves the original target in the sample.\<close>

lemma softmax_step_world:
  assumes "softmax_step m lp orig c w a = (w', Inr a')"
  shows "cur w' = (cur w)\<lparr>target := orig\<rparr> \<and> calls w' = calls w @ [Normalize]"
  using assms
  by (auto simp: softmax_step_def Let_def split: prod.splits if_splits sum.splits)

lemma softmax_loop_world:
  assumes "softmax_loop m lp orig cs w a = (w', Inr a')" "target (cur w) = orig"
  shows "cur w' = cur w"
  using assms
proof (induction cs arbitrary: w a)
  case Nil
  then show ?case by simp
next
  case (Cons c cs)
  from Cons.prems(1) obtain w1 a1 where
    s: "softmax_step m lp orig c w a = (w1, Inr a1)"
    and l: "softmax_loop m lp orig cs w1 a1 = (w', Inr a')"
    by (auto split: prod.splits sum.splits)
  from softmax_step_world[OF s] Cons.prems(2) have c1: "cur w1 = cur w" by simp
  with Cons.IH[OF l] Cons.prems(2) show ?case by simp
qed

lemma knn_fuse_world:
  assumes "knn_fuse sc n ds bd orig w pf = (w', r)"
  shows "cur w' = cur w"
  using assms
  by (auto simp: knn_fuse_def Let_def split: sum.splits if_splits)

lemma model_pass_world:
  assumes "model_pass sc n kd m orig ni w = Some (w', Inr p)" "target (cur w) = orig"
  shows "cur w' = cur w"
proof (cases kd)
  case None
  with assms(1) obtain batched a where
    l: "softmax_loop m (n = 1) orig batched (w\<lparr>calls := calls w @ [Forward]\<rparr>) init_acc
          = (w', Inr a)"
    by (auto simp: model_pass_def Let_def
          split: list.splits option.splits sum.splits prod.splits)
  from softmax_loop_world[OF l] assms(2) show ?thesis by simp
next
  case (Some ds)
  with assms(1) obtain batched w2 a pa pb r where
    l: "softmax_loop m (n = 1) orig batched (w\<lparr>calls := calls w @ [Forward]\<rparr>) init_acc
          = (w2, Inr a)"
    and k: "knn_fuse sc n ds (forward m ni) orig w2 (pa, pb) = (w', r)"
    by (auto simp: model_pass_def Let_def
          split: list.splits option.splits sum.splits prod.splits)
  from softmax_loop_world[OF l] assms(2) have "cur w2 = cur w" by simp
  with knn_fuse_world[OF k] show ?thesis by simp
qed

lemma models_loop_world:
  assumes "models_loop sc n kd orig ni ms w s = Some (w', Inr s')" "target (cur w) = orig"
  shows "cur w' = cur w"
  using assms
proof (induction ms arbitrary: w s)
  case Nil
  then show ?case by simp
next
  case (Cons m ms)
  from Cons.prems(1) obtain w1 p s1 where
    p: "model_pass sc n kd m orig ni w = Some (w1, Inr p)"
    and l: "models_loop sc n kd orig ni ms w1 s1 = Some (w', Inr s')"
    by (auto split: option.splits prod.splits sum.splits)
  from model_pass_world[OF p Cons.prems(2)] have "cur w1 = cur w" .
  with Cons.IH[OF l] Cons.prems(2) show ?case by simp
qed

text \<open>
  A run of the scorer at the concrete batch with ceiling 2: the three positions are
  normalised in two chunks, and one Hypothesis of two tokens results.
\<close>

lemma ex_run_chunked:
  "generate (ex_scorer 2) ex_align [ex_lm (1 / 100)] None ex_world
     = Some (ex_world\<lparr>calls := [Forward, Normalize, Normalize]\<rparr>,
             Inr [\<lparr>tokens = [3, 3], score = Some (ln (1 / 100)), attention = None,
                   alignment = None, positional_scores = [ln (1 / 100), ln (1 / 100)],
                   dstore_keys = None,
                   predicted_topk = [topk_row 100 (replicate 100 (ln (1 / 100))),
                                     topk_row 100 (replicate 100 (ln (1 / 100)))]\<rparr>])"
  by (simp add: generate_def ex_scorer_def ex_lm_def ex_world_def ex_sample_def Let_def
     model_pass_def batch_for_softmax_def size0_def size1_def size2_def init_avg_def init_acc_def
     chunk_loop.simps chunk_at_def py_slice_def py_index_def softmax_step_def is_tensor3_def
     is_tensor2_def gather_target_probs_def gather_row_def nth_opt_def finish_pass_def
     floor_zero_def accumulate_def topk_def make_hypo_def strip_pad_def ex_args_def list_all_iff)

text \<open>
  Claim C8. When \<open>generate\<close> returns, the sample's target field, which every chunk step
  overwrites with the chunk's target, has its value on entry; the sample is unchanged
  altogether.
\<close>

theorem generate_restores_target:
  assumes "generate sc al models kd w = Some (w', Inr hypos)"
  shows "target (cur w') = target (cur w) \<and> cur w' = cur w"
proof -
  from assms obtain ni s where
    "models_loop sc (length models) kd (target (cur w)) ni models w init_avg = Some (w', Inr s)"
    by (auto simp: generate_def Let_def split: option.splits prod.splits sum.splits)
  from models_loop_world[OF this] show ?thesis by simp
qed


theorem generate_restores_target_witness:
  "\<exists>w' hypos. generate (ex_scorer 2) ex_align [ex_lm (1 / 100)] None ex_world
                   = Some (w', Inr hypos)
      \<and> calls w' = [Forward, Normalize, Normalize]
      \<and> target (cur w') = [[3, 3, 1]] \<and> cur w' = cur ex_world"
  using generate_restores_target[OF ex_run_chunked] ex_run_chunked
  by (simp add: ex_world_def ex_sample_def)

section \<open>The Hypotheses of \<open>generate\<close>\<close>

lemma collect_Inr:
  "collect xs = Inr ys \<Longrightarrow> length ys = length xs \<and> (\<forall>i < length xs. xs ! i = Inr (ys ! i))"
proof (induction xs arbitrary: ys)
  case Nil
  then show ?case by simp
next
  case (Cons x xs)
  then obtain v vs where x: "x = Inr v" and c: "collect xs = Inr vs" and y: "ys = v # vs"
    by (auto split: sum.splits)
  from Cons.IH[OF c] x y show ?case by (auto simp: nth_Cons split: nat.splits)
qed

lemma make_hypo_fields:
  assumes "make_hypo sc al s ap aa tk dec sts i = Inr h"
  shows "\<exists>st. nth_opt sts i = Some st \<and> i < length (target s) \<and> i < length ap \<and> i < length tk
     \<and> tokens h = strip_pad (drop st (target s ! i)) (pad sc)
     \<and> positional_scores h = take (length (tokens h)) (drop st (ap ! i))
     \<and> predicted_topk h = take (length (tokens h)) (drop st (tk ! i))
     \<and> score h = (if tokens h = [] then None
                  else Some (sum_list (positional_scores h) / real (length (tokens h))))"
  using assms
  by (auto simp: make_hypo_def Let_def nth_opt_def split: option.splits sum.splits if_splits prod.splits)

lemma generate_hypos:
  assumes "generate sc al ms kd w = Some (w', Inr hypos)"
  shows "\<exists>ni s ap aa tk full dec.
      net_input_of (cur w) = Some ni
    \<and> models_loop sc (length ms) kd (target (cur w)) ni ms w init_avg = Some (w', Inr s)
    \<and> last_full s = Some full \<and> topk 100 full = Inr tk \<and> last_dec s = Some dec
    \<and> (if 1 < length ms
        then map_option (map (map (\<lambda>x. ln (x / real (length ms))))) (avg_probs s)
        else avg_probs s) = Some ap
    \<and> length hypos = size0 ap
    \<and> (\<forall>i < length hypos.
          make_hypo sc al (cur w') ap aa tk dec
            (case start_indices (cur w') of Some xs \<Rightarrow> xs | None \<Rightarrow> replicate (size0 ap) 0) i
          = Inr (hypos ! i))"
proof -
  from assms obtain ni s full tk ap dec where
    ni: "net_input_of (cur w) = Some ni"
    and ml: "models_loop sc (length ms) kd (target (cur w)) ni ms w init_avg = Some (w', Inr s)"
    and lf: "last_full s = Some full" and tk: "topk 100 full = Inr tk"
    and ld: "last_dec s = Some dec"
    and ap: "(if 1 < length ms
        then map_option (map (map (\<lambda>x. ln (x / real (length ms))))) (avg_probs s)
        else avg_probs s) = Some ap"
    and co: "collect (map (make_hypo sc al (cur w') ap
               (if 1 < length ms
                then map_option (map (map (map (\<lambda>x. x / real (length ms))))) (avg_attn s)
                else avg_attn s) tk dec
               (case start_indices (cur w') of Some xs \<Rightarrow> xs | None \<Rightarrow> replicate (size0 ap) 0))
               [0..<size0 ap]) = Inr hypos"
    by (auto simp: generate_def Let_def split: option.splits sum.splits prod.splits)
  from collect_Inr[OF co] have "length hypos = size0 ap"
    and "\<forall>i < length hypos.
          make_hypo sc al (cur w') ap
               (if 1 < length ms
                then map_option (map (map (map (\<lambda>x. x / real (length ms))))) (avg_attn s)
                else avg_attn s) tk dec
            (case start_indices (cur w') of Some xs \<Rightarrow> xs | None \<Rightarrow> replicate (size0 ap) 0) i
          = Inr (hypos ! i)"
    by auto
  with ni ml lf tk ld ap show ?thesis by blast
qed











text \<open>Runs of the scorer at the concrete batch: one model, and an ensemble of two.\<close>

lemmas ex_run_defs = generate_def ex_scorer_def ex_lm_def ex_world_def ex_sample_def Let_def
     model_pass_def batch_for_softmax_def size0_def size1_def size2_def init_avg_def init_acc_def
     chunk_loop.simps chunk_at_def py_slice_def py_index_def softmax_step_def is_tensor3_def
     is_tensor2_def gather_target_probs_def gather_row_def nth_opt_def finish_pass_def
     floor_zero_def accumulate_def topk_def make_hypo_def strip_pad_def ex_args_def list_all_iff


lemma ex_run_ensemble:
  "generate (ex_scorer 4) ex_align [ex_lm (1 / 100), ex_lm (1 / 50)] None ex_world
     = Some (ex_world\<lparr>calls := [Forward, Normalize, Forward, Normalize]\<rparr>,
             Inr [\<lparr>tokens = [3, 3], score = Some (ln (3 / 200)), attention = None,
                   alignment = None, positional_scores = [ln (3 / 200), ln (3 / 200)],
                   dstore_keys = None,
                   predicted_topk = [topk_row 100 (replicate 100 (1 / 50)),
                                     topk_row 100 (replicate 100 (1 / 50))]\<rparr>])"
  by (simp add: ex_run_defs add2_def)



lemma accumulate_last:
  "accumulate s p = Inr s' \<Longrightarrow> last_full s' = Some (p_full p) \<and> last_dec s' = Some (p_dec p)"
  by (auto simp: accumulate_def Let_def split: option.splits sum.splits)

lemma models_loop_last:
  assumes "models_loop sc n kd orig ni ms w s = Some (w', Inr s')" "ms \<noteq> []"
    and "target (cur w) = orig"
  shows "\<exists>cs p. model_pass sc n kd (last ms) orig ni (w\<lparr>calls := cs\<rparr>) = Some (w', Inr p)
           \<and> last_full s' = Some (p_full p) \<and> last_dec s' = Some (p_dec p)"
  using assms
proof (induction ms arbitrary: w s)
  case Nil
  then show ?case by simp
next
  case (Cons m ms)
  from Cons.prems(1) obtain w1 p s1 where
    p: "model_pass sc n kd m orig ni w = Some (w1, Inr p)"
    and a: "accumulate s p = Inr s1"
    and l: "models_loop sc n kd orig ni ms w1 s1 = Some (w', Inr s')"
    by (auto split: option.splits prod.splits sum.splits)
  from model_pass_world[OF p Cons.prems(3)] have c1: "cur w1 = cur w" .
  show ?case
  proof (cases "ms = []")
    case True
    with l have "w' = w1" "s' = s1" by simp_all
    moreover have "w\<lparr>calls := calls w\<rparr> = w" by simp
    ultimately show ?thesis using p accumulate_last[OF a] True by (metis last.simps)
  next
    case False
    from Cons.IH[OF l False] c1 Cons.prems(3) obtain cs q where
      q: "model_pass sc n kd (last ms) orig ni (w1\<lparr>calls := cs\<rparr>) = Some (w', Inr q)"
      "last_full s' = Some (p_full q)" "last_dec s' = Some (p_dec q)"
      by auto
    have "w1\<lparr>calls := cs\<rparr> = w\<lparr>calls := cs\<rparr>" using c1
      by (cases w, cases w1) simp
    with q False show ?thesis by auto
  qed
qed

text \<open>
  Claim C10. With an ensemble of more than one model and no retrieval, the
  \<open>predicted_topk\<close> of every Hypothesis is cut from the top 100 of the full distribution
  that the pass of the last model leaves: it is determined by that pass alone, whatever
  the other models and the averaged probabilities are.
\<close>

theorem generate_topk_last_model:
  assumes g: "generate sc al ms None w = Some (w', Inr hypos)"
    and n: "1 < length ms" and i: "i < length hypos"
  shows "\<exists>ni cs p tk st.
      net_input_of (cur w) = Some ni
    \<and> model_pass sc (length ms) None (last ms) (target (cur w)) ni (w\<lparr>calls := cs\<rparr>)
        = Some (w', Inr p)
    \<and> topk 100 (p_full p) = Inr tk
    \<and> nth_opt (case start_indices (cur w) of Some xs \<Rightarrow> xs
               | None \<Rightarrow> replicate (length hypos) 0) i = Some st
    \<and> predicted_topk (hypos ! i) = take (length (tokens (hypos ! i))) (drop st (tk ! i))"
proof -
  from generate_hypos[OF g] obtain ni s ap aa tk full dec where
    ni: "net_input_of (cur w) = Some ni"
    and ml: "models_loop sc (length ms) None (target (cur w)) ni ms w init_avg = Some (w', Inr s)"
    and lf: "last_full s = Some full" and tk: "topk 100 full = Inr tk"
    and len: "length hypos = size0 ap"
    and mh: "\<forall>i < length hypos.
          make_hypo sc al (cur w') ap aa tk dec
            (case start_indices (cur w') of Some xs \<Rightarrow> xs | None \<Rightarrow> replicate (size0 ap) 0) i
          = Inr (hypos ! i)"
    by blast
  from n have ne: "ms \<noteq> []" by auto
  from models_loop_last[OF ml ne refl] lf obtain cs p where
    mp: "model_pass sc (length ms) None (last ms) (target (cur w)) ni (w\<lparr>calls := cs\<rparr>)
        = Some (w', Inr p)"
    and pf: "full = p_full p"
    by auto
  from models_loop_world[OF ml refl] have cw: "cur w' = cur w" .
  from mh[unfolded cw len[symmetric]] i have "make_hypo sc al (cur w) ap aa tk dec
            (case start_indices (cur w) of Some xs \<Rightarrow> xs
             | None \<Rightarrow> replicate (length hypos) 0) i = Inr (hypos ! i)"
    by blast
  from make_hypo_fields[OF this] obtain st where
    "nth_opt (case start_indices (cur w) of Some xs \<Rightarrow> xs
               | None \<Rightarrow> replicate (length hypos) 0) i = Some st"
    "predicted_topk (hypos ! i) = take (length (tokens (hypos ! i))) (drop st (tk ! i))"
    by blast
  with ni mp tk pf show ?thesis by blast
qed


theorem generate_topk_last_model_witness:
  "\<exists>w' hypos ni cs p tk.
      generate (ex_scorer 4) ex_align [ex_lm (1 / 100), ex_lm (1 / 50)] None ex_world
        = Some (w', Inr hypos)
    \<and> length hypos = 1
    \<and> model_pass (ex_scorer 4) 2 None (ex_lm (1 / 50)) [[3, 3, 1]] ni (ex_world\<lparr>calls := cs\<rparr>)
        = Some (w', Inr p)
    \<and> topk 100 (p_full p) = Inr tk
    \<and> predicted_topk (hypos ! 0) = take 2 (tk ! 0)
    \<and> positional_scores (hypos ! 0) = [ln (3 / 200), ln (3 / 200)]"
proof -
  let ?h = "\<lparr>tokens = [3, 3], score = Some (ln (3 / 200)), attention = None,
                   alignment = None, positional_scores = [ln (3 / 200), ln (3 / 200)],
                   dstore_keys = None,
                   predicted_topk = [topk_row 100 (replicate 100 (1 / 50)),
                                     topk_row 100 (replicate 100 (1 / 50))]\<rparr>"
  have i: "0 < length [?h]" by simp
  have n: "1 < length [ex_lm (1 / 100), ex_lm (1 / 50)]" by simp
  from generate_topk_last_model[OF ex_run_ensemble n i] obtain ni cs p tk st where
    mp: "model_pass (ex_scorer 4) (length [ex_lm (1 / 100), ex_lm (1 / 50)]) None
           (last [ex_lm (1 / 100), ex_lm (1 / 50)]) (target (cur ex_world)) ni
           (ex_world\<lparr>calls := cs\<rparr>)
        = Some (ex_world\<lparr>calls := [Forward, Normalize, Forward, Normalize]\<rparr>, Inr p)"
    and tk: "topk 100 (p_full p) = Inr tk"
    and st: "nth_opt (case start_indices (cur ex_world) of Some xs \<Rightarrow> xs
               | None \<Rightarrow> replicate (length [?h]) 0) 0 = Some st"
    and pt: "predicted_topk ([?h] ! 0) = take (length (tokens ([?h] ! 0))) (drop st (tk ! 0))"
    by blast
  from st have st0: "st = 0"
    by (simp add: ex_world_def ex_sample_def nth_opt_def)
  from mp have mp': "model_pass (ex_scorer 4) 2 None (ex_lm (1 / 50)) [[3, 3, 1]] ni
           (ex_world\<lparr>calls := cs\<rparr>)
        = Some (ex_world\<lparr>calls := [Forward, Normalize, Forward, Normalize]\<rparr>, Inr p)"
    by (simp add: ex_world_def ex_sample_def numeral_2_eq_2)
  from pt st0 have pt': "predicted_topk ([?h] ! 0) = take 2 (tk ! 0)"
    by (simp add: numeral_2_eq_2)
  from ex_run_ensemble mp' tk pt' show ?thesis
    by (intro exI[of _ "ex_world\<lparr>calls := [Forward, Normalize, Forward, Normalize]\<rparr>"]
          exI[of _ "[?h]"] exI[of _ ni] exI[of _ cs] exI[of _ p] exI[of _ tk]) simp
qed


section \<open>Termination and configuration conflicts\<close>

text \<open>
  A scorer whose ceiling is positive returns from every call, and so does \<open>main\<close>, whose
  scorer passed the constructor's assertion.
\<close>

lemma batch_for_softmax_total:
  assumes "0 < M"
  shows "\<exists>r. batch_for_softmax M d t = Some r"
  using chunk_loop_total[OF assms, of "concat (fst d)" "concat t" "snd d" 0]
  by (simp add: batch_for_softmax_def Let_def del: of_nat_mult)

lemma model_pass_total:
  assumes "0 < softmax_batch sc"
  shows "\<exists>r. model_pass sc n kd m orig ni w = Some r"
proof -
  from batch_for_softmax_total[OF assms]
  obtain r where "batch_for_softmax (softmax_batch sc) (forward m ni) orig = Some r" by blast
  then show ?thesis
    by (auto simp: model_pass_def Let_def
          split: list.splits option.splits sum.splits prod.splits)
qed

lemma models_loop_total:
  assumes "0 < softmax_batch sc"
  shows "\<exists>r. models_loop sc n kd orig ni ms w s = Some r"
proof (induction ms arbitrary: w s)
  case Nil
  show ?case by simp
next
  case (Cons m ms)
  from model_pass_total[OF assms]
  obtain r where r: "model_pass sc n kd m orig ni w = Some r" by blast
  show ?case
    using r Cons.IH by (auto split: option.splits sum.splits prod.splits)
qed

lemma generate_total:
  assumes "0 < softmax_batch sc"
  shows "\<exists>r. generate sc al ms kd w = Some r"
proof (cases "net_input_of (cur w)")
  case None
  then show ?thesis by (simp add: generate_def)
next
  case (Some ni)
  from models_loop_total[OF assms]
  obtain r where "models_loop sc (length ms) kd (target (cur w)) ni ms w init_avg = Some r"
    by blast
  with Some show ?thesis
    by (auto simp: generate_def Let_def split: option.splits sum.splits prod.splits)
qed

lemma batches_loop_total:
  assumes "0 < softmax_batch sc"
  shows "\<exists>r. batches_loop ar sc al ms kd bos bpe bs d = Some r"
proof (induction bs arbitrary: d)
  case Nil
  show ?case by simp
next
  case (Cons s bs)
  from generate_total[OF assms]
  obtain r where r: "generate sc al ms kd \<lparr>cur = s, calls = trace d\<rparr> = Some r" by blast
  show ?case
    using r Cons.IH by (auto split: option.splits sum.splits prod.splits)
qed

lemma SequenceScorer_init_positive:
  "SequenceScorer_init td sb ca a = Inr sc \<Longrightarrow> 0 < softmax_batch sc"
  by (auto simp: SequenceScorer_init_def Let_def sys_maxsize_def split: option.splits if_splits)


lemma main_total: "\<exists>r. main ar sd td al ms kp bs = Some r"
proof (cases "SequenceScorer_init td (args_softmax_batch ar) False (Some ar)")
  case (Inl e)
  then show ?thesis by (simp add: main_def)
next
  case (Inr sc)
  from batches_loop_total[OF SequenceScorer_init_positive[OF Inr]]
  obtain d r where b: "batches_loop ar sc al ms (if knnlm ar then Some kp else None)
                      (bos_index td) (case bpe_tokens ar (symbols sd) of Inr b \<Rightarrow> b)
                      bs (open_dstore ar) = Some (d, r)"
    by (metis surj_pair)
  show ?thesis
  proof (cases "bpe_tokens ar (symbols sd)")
    case (Inl e)
    with Inr show ?thesis by (simp add: main_def)
  next
    case bp: (Inr b')
    with b Inr show ?thesis
      by (cases r) (simp_all add: main_def)
  qed
qed

lemma gather_target_probs_error: "gather_target_probs p t = Inl e \<Longrightarrow> e = RuntimeError"
  by (auto simp: gather_target_probs_def split: if_splits option.splits)

lemma softmax_step_error:
  assumes "softmax_step m lp orig c w a = (w', Inl e)"
  shows "e = RuntimeError"
  using assms gather_target_probs_error
  by (auto simp: softmax_step_def Let_def split: prod.splits if_splits sum.splits)

lemma softmax_loop_error:
  assumes "softmax_loop m lp orig cs w a = (w', Inl e)"
  shows "e = RuntimeError"
  using assms
proof (induction cs arbitrary: w a)
  case Nil
  then show ?case by simp
next
  case (Cons c cs)
  show ?case
  proof (cases "softmax_step m lp orig c w a")
    case (Pair w1 r)
    show ?thesis
    proof (cases r)
      case (Inl e1)
      with Pair Cons.prems softmax_step_error show ?thesis by auto
    next
      case (Inr a1)
      with Pair Cons.prems have "softmax_loop m lp orig cs w1 a1 = (w', Inl e)" by simp
      from Cons.IH[OF this] show ?thesis .
    qed
  qed
qed

lemma softmax_loop_calls:
  assumes "softmax_loop m lp orig cs w a = (w', Inr a')"
  shows "calls w' = calls w @ replicate (length cs) Normalize \<and> (cs = [] \<longrightarrow> a' = a)"
  using assms
proof (induction cs arbitrary: w a)
  case Nil
  then show ?case by simp
next
  case (Cons c cs)
  from Cons.prems obtain w1 a1 where
    s: "softmax_step m lp orig c w a = (w1, Inr a1)"
    and l: "softmax_loop m lp orig cs w1 a1 = (w', Inr a')"
    by (auto split: prod.splits sum.splits)
  from softmax_step_world[OF s] have "calls w1 = calls w @ [Normalize]" by simp
  with Cons.IH[OF l] show ?case by (simp add: replicate_app_Cons_same)
qed

lemma batch_for_softmax_error: "batch_for_softmax M d t = Some (Inl e) \<Longrightarrow> e = RuntimeError"
  by (auto simp: batch_for_softmax_def Let_def split: if_splits)

lemma finish_pass_error:
  "finish_pass orig a = Inl e \<Longrightarrow> e = TypeError \<or> e = AttributeError \<or> e = RuntimeError"
  by (auto simp: finish_pass_def Let_def split: option.splits if_splits)

lemma finish_pass_init: "finish_pass orig init_acc = Inl TypeError"
  by (simp add: finish_pass_def init_acc_def)

lemma knn_fuse_ensemble:
  assumes "n \<noteq> 1"
  shows "\<exists>e. knn_fuse sc n ds bd orig w pf = (w, Inl e)
             \<and> (e = ValueError \<or> e = IndexError \<or> e = KeyError \<or> e = TypeError)"
  using assms
  by (auto simp: knn_fuse_def aux_key_def split: sum.splits list.splits aux.splits option.splits)

text \<open>
  With a retrieval provider and an ensemble, the pass of a model never ends well, and
  the refusal comes after the forward pass and the normalisation of every chunk.
\<close>

lemma knn_ensemble_pass:
  assumes mp: "model_pass sc n (Some ds) m orig ni w = Some (w', r)" and n: "n \<noteq> 1"
  shows "\<exists>e. r = Inl e
           \<and> (e = ValueError \<longrightarrow>
                (\<exists>k. 0 < k \<and> calls w' = calls w @ Forward # replicate k Normalize))"
proof (cases "snd (forward m ni)")
  case Nil
  with mp show ?thesis by (auto simp: model_pass_def Let_def)
next
  case (Cons x xs)
  let ?w1 = "w\<lparr>calls := calls w @ [Forward]\<rparr>"
  show ?thesis
  proof (cases "batch_for_softmax (softmax_batch sc) (forward m ni) orig")
    case None
    with mp Cons show ?thesis by (simp add: model_pass_def Let_def)
  next
    case (Some b)
    show ?thesis
    proof (cases b)
      case (Inl e)
      with Some batch_for_softmax_error have "e = RuntimeError" by blast
      with mp Cons Some Inl show ?thesis by (auto simp: model_pass_def Let_def)
    next
      case (Inr batched)
      obtain w2 ra where sl: "softmax_loop m (n = 1) orig batched ?w1 init_acc = (w2, ra)"
        by (cases "softmax_loop m (n = 1) orig batched ?w1 init_acc")
      show ?thesis
      proof (cases ra)
        case (Inl e)
        with sl softmax_loop_error have "e = RuntimeError" by blast
        with mp Cons Some Inr sl Inl show ?thesis by (auto simp: model_pass_def Let_def)
      next
        case a: (Inr a)
        show ?thesis
        proof (cases "finish_pass orig a")
          case (Inl e)
          with finish_pass_error have "e \<noteq> ValueError" by fastforce
          with mp Cons Some Inr sl a Inl show ?thesis by (auto simp: model_pass_def Let_def)
        next
          case pf: (Inr pf)
          from knn_fuse_ensemble[OF n] obtain e where
            k: "knn_fuse sc n ds (forward m ni) orig w2 pf = (w2, Inl e)" by blast
          from mp Cons Some Inr sl a pf k have r: "r = Inl e" "w' = w2"
            by (auto simp: model_pass_def Let_def)
          from sl a softmax_loop_calls
          have c: "calls w2 = calls ?w1 @ replicate (length batched) Normalize"
            and z: "batched = [] \<longrightarrow> a = init_acc" by blast+
          from z pf finish_pass_init have "batched \<noteq> []" by auto
          then have "0 < length batched" by simp
          with c r show ?thesis by auto
        qed
      qed
    qed
  qed
qed

lemma knn_ensemble_generate:
  assumes g: "generate sc al ms (Some ds) w = Some (w', r)" and n: "1 < length ms"
  shows "\<exists>e. r = Inl e
           \<and> (e = ValueError \<longrightarrow>
                (\<exists>k. 0 < k \<and> calls w' = calls w @ Forward # replicate k Normalize))"
proof (cases "net_input_of (cur w)")
  case None
  with g show ?thesis by (auto simp: generate_def)
next
  case (Some ni)
  from n obtain m ms' where ms: "ms = m # ms'" by (cases ms) auto
  from n have n1: "length ms \<noteq> 1" by simp
  show ?thesis
  proof (cases "model_pass sc (length ms) (Some ds) m (target (cur w)) ni w")
    case None
    with g Some ms show ?thesis by (simp add: generate_def Let_def)
  next
    case mp: (Some q)
    obtain w1 r1 where q: "q = (w1, r1)" by (cases q)
    from knn_ensemble_pass[OF mp[unfolded q] n1] obtain e where
      e: "r1 = Inl e"
        "e = ValueError \<longrightarrow> (\<exists>k. 0 < k \<and> calls w1 = calls w @ Forward # replicate k Normalize)"
      by blast
    have "models_loop sc (length ms) (Some ds) (target (cur w)) ni ms w init_avg
            = Some (w1, Inl e)"
      using mp q e(1) by (simp add: ms)
    with g Some have "w' = w1" "r = Inl e" by (auto simp: generate_def Let_def)
    with e(2) show ?thesis by simp
  qed
qed

lemma knn_ensemble_batches:
  assumes b: "batches_loop ar sc al ms (Some ds) bos bpe bs d = Some (d', r)"
    and n: "1 < length ms"
  shows "(r = None \<and> d' = d)
       \<or> (\<exists>e. r = Some e \<and> d' = d\<lparr>trace := trace d'\<rparr>
            \<and> (e = ValueError \<longrightarrow>
                 (\<exists>k. 0 < k \<and> trace d' = trace d @ Forward # replicate k Normalize)))"
  using b
proof (induction bs)
  case Nil
  then show ?case by simp
next
  case (Cons s bs)
  show ?case
  proof (cases "net_input_of s")
    case None
    with Cons show ?thesis by simp
  next
    case (Some ni)
    show ?thesis
    proof (cases "generate sc al ms (Some ds) \<lparr>cur = s, calls = trace d\<rparr>")
      case None
      with Cons.prems Some show ?thesis by simp
    next
      case g: (Some q)
      obtain w1 r1 where q: "q = (w1, r1)" by (cases q)
      from knn_ensemble_generate[OF g[unfolded q] n] obtain e where
        e: "r1 = Inl e"
          "e = ValueError \<longrightarrow> (\<exists>k. 0 < k \<and> calls w1 = trace d @ Forward # replicate k Normalize)"
        by auto
      from Cons.prems Some g q e(1) have "d' = d\<lparr>trace := calls w1\<rparr>" "r = Some e" by simp_all
      with e(2) show ?thesis by simp
    qed
  qed
qed

lemma open_dstore_plain: "\<not> save_knnlm_dstore ar \<Longrightarrow> open_dstore ar = init_driver"
  by (simp add: open_dstore_def)

text \<open>
  Claim C4, as amended. Retrieval fusion together with datastore building is refused
  before the loop over the batches: the run ends in the initial state, with no call to
  a model, and with \<open>ValueError\<close> once the ensemble is not empty, the configured
  \<open>softmax_batch\<close> is not negative and \<open>remove_bpe\<close> is not \<open>sentencepiece\<close>. Retrieval
  fusion with an ensemble of more than one model is refused inside the scorer only:
  the run always ends in an exception with no Hypothesis accumulated, and when the
  exception is \<open>ValueError\<close> it comes after the first model's forward pass on a batch
  and the normalisation of at least one chunk of it.
\<close>

theorem main_configuration_conflicts:
  "(knnlm ar \<and> save_knnlm_dstore ar \<longrightarrow>
      (\<exists>e. main ar sd td al ms kp bs = Some (init_driver, Inl e)) \<and> trace init_driver = []
      \<and> (ms \<noteq> [] \<and> (\<forall>n. args_softmax_batch ar = Some n \<longrightarrow> 0 \<le> n)
           \<and> remove_bpe ar \<noteq> Some ''sentencepiece''
          \<longrightarrow> main ar sd td al ms kp bs = Some (init_driver, Inl ValueError)))
   \<and> (knnlm ar \<and> \<not> save_knnlm_dstore ar \<and> 1 < length ms \<longrightarrow>
      (\<exists>d e. main ar sd td al ms kp bs = Some (d, Inl e)
         \<and> d = init_driver\<lparr>trace := trace d\<rparr>
         \<and> (e = ValueError \<longrightarrow> (\<exists>k. 0 < k \<and> trace d = Forward # replicate k Normalize))))"
proof (intro conjI impI)
  assume a: "knnlm ar \<and> save_knnlm_dstore ar"
  then show "\<exists>e. main ar sd td al ms kp bs = Some (init_driver, Inl e)"
    by (auto simp: main_def split: sum.splits)
  show "trace init_driver = []" by (simp add: init_driver_def)
  assume "ms \<noteq> [] \<and> (\<forall>n. args_softmax_batch ar = Some n \<longrightarrow> 0 \<le> n)
           \<and> remove_bpe ar \<noteq> Some ''sentencepiece''"
  then have i: "\<exists>sc. SequenceScorer_init td (args_softmax_batch ar) False (Some ar) = Inr sc"
    and b: "\<exists>t. bpe_tokens ar (symbols sd) = Inr t" and m: "0 < length ms"
    by (auto simp: SequenceScorer_init_def bpe_tokens_def Let_def sys_maxsize_def
          split: option.splits)
  with a show "main ar sd td al ms kp bs = Some (init_driver, Inl ValueError)"
    by (auto simp: main_def)
next
  assume a: "knnlm ar \<and> \<not> save_knnlm_dstore ar \<and> 1 < length ms"
  then have m: "0 < length ms" and n: "1 < length ms" and k: "knnlm ar"
    and s: "\<not> save_knnlm_dstore ar" by auto
  have tr: "init_driver\<lparr>trace := []\<rparr> = init_driver" by (simp add: init_driver_def)
  show "\<exists>d e. main ar sd td al ms kp bs = Some (d, Inl e)
         \<and> d = init_driver\<lparr>trace := trace d\<rparr>
         \<and> (e = ValueError \<longrightarrow> (\<exists>k. 0 < k \<and> trace d = Forward # replicate k Normalize))"
  proof (cases "SequenceScorer_init td (args_softmax_batch ar) False (Some ar)")
    case (Inl e)
    then have "e = AssertionError"
      by (auto simp: SequenceScorer_init_def Let_def split: if_splits)
    with Inl m tr show ?thesis by (simp add: main_def init_driver_def)
  next
    case (Inr sc)
    show ?thesis
    proof (cases "bpe_tokens ar (symbols sd)")
      case (Inl e)
      then have "e = NotImplementedError"
        by (auto simp: bpe_tokens_def split: option.splits if_splits)
      with Inl Inr m tr show ?thesis by (simp add: main_def init_driver_def)
    next
      case bp: (Inr bpe)
      from batches_loop_total[OF SequenceScorer_init_positive[OF Inr]]
      obtain d r where b: "batches_loop ar sc al ms (Some kp) (bos_index td) bpe bs init_driver
                             = Some (d, r)"
        by (metis surj_pair)
      from knn_ensemble_batches[OF b n] show ?thesis
      proof
        assume "r = None \<and> d = init_driver"
        with b Inr bp m k s tr show ?thesis
          by (simp add: main_def open_dstore_plain finalize_def init_driver_def)
      next
        assume "\<exists>e. r = Some e \<and> d = init_driver\<lparr>trace := trace d\<rparr>
            \<and> (e = ValueError \<longrightarrow>
                 (\<exists>k. 0 < k \<and> trace d = trace init_driver @ Forward # replicate k Normalize))"
        then obtain e where e: "r = Some e" "d = init_driver\<lparr>trace := trace d\<rparr>"
          "e = ValueError \<longrightarrow>
                 (\<exists>k. 0 < k \<and> trace d = trace init_driver @ Forward # replicate k Normalize)"
          by blast
        from b Inr bp m k s e(1) have "main ar sd td al ms kp bs = Some (d, Inl e)"
          by (simp add: main_def open_dstore_plain)
        moreover from e(3) have "e = ValueError \<longrightarrow>
                 (\<exists>k. 0 < k \<and> trace d = Forward # replicate k Normalize)"
          by (simp add: init_driver_def)
        ultimately show ?thesis using e(2) by blast
      qed
    qed
  qed
qed

text \<open>Two runs with retrieval fusion and an ensemble of two: one batch, and no batch.\<close>

lemmas ex_main_defs = main_def SequenceScorer_init_def bpe_tokens_def open_dstore_def
  ex_args_def ex_dict_def finalize_def init_driver_def sys_maxsize_def
  generate_def ex_lm_def ex_sample_def Let_def
     model_pass_def batch_for_softmax_def size0_def size1_def size2_def init_avg_def init_acc_def
     softmax_step_def is_tensor3_def
     is_tensor2_def gather_target_probs_def gather_row_def nth_opt_def finish_pass_def
     floor_zero_def knn_fuse_def aux_key_def list_all_iff

lemma ex_main_ensemble_run:
  "main (ex_args\<lparr>knnlm := True\<rparr>) ex_dict ex_dict ex_align [ex_lm (1 / 100), ex_lm (1 / 50)]
      ex_knn [ex_sample]
     = Some (init_driver\<lparr>trace := [Forward, Normalize]\<rparr>, Inl ValueError)"
  by (simp add: ex_main_defs)

lemma ex_main_no_batch:
  "main (ex_args\<lparr>knnlm := True\<rparr>) ex_dict ex_dict ex_align [ex_lm (1 / 100), ex_lm (1 / 50)]
      ex_knn []
     = Some (init_driver, Inl ZeroDivisionError)"
  by (simp add: ex_main_defs)

text \<open>
  Claim C4 as stated fails at these runs: with one batch the \<open>ValueError\<close> is raised when
  the first model has run its forward pass and normalisation on the batch, and with no
  batch no \<open>ValueError\<close> is raised at all (the run ends in the division by a zero count).
\<close>

theorem main_ensemble_retrieval_counterexample:
  "main (ex_args\<lparr>knnlm := True\<rparr>) ex_dict ex_dict ex_align [ex_lm (1 / 100), ex_lm (1 / 50)]
      ex_knn [ex_sample]
     = Some (init_driver\<lparr>trace := [Forward, Normalize]\<rparr>, Inl ValueError)
   \<and> trace (init_driver\<lparr>trace := [Forward, Normalize]\<rparr>) \<noteq> []
   \<and> main (ex_args\<lparr>knnlm := True\<rparr>) ex_dict ex_dict ex_align [ex_lm (1 / 100), ex_lm (1 / 50)]
      ex_knn []
     = Some (init_driver, Inl ZeroDivisionError)"
  using ex_main_ensemble_run ex_main_no_batch by simp

theorem main_configuration_conflicts_witness:
  "main (ex_args\<lparr>knnlm := True, save_knnlm_dstore := True\<rparr>) ex_dict ex_dict ex_align
      [ex_lm (1 / 100)] ex_knn [ex_sample]
     = Some (init_driver, Inl ValueError)
   \<and> (\<exists>d. main (ex_args\<lparr>knnlm := True\<rparr>) ex_dict ex_dict ex_align
             [ex_lm (1 / 100), ex_lm (1 / 50)] ex_knn [ex_sample]
           = Some (d, Inl ValueError)
         \<and> d = init_driver\<lparr>trace := trace d\<rparr>
         \<and> (\<exists>k. 0 < k \<and> trace d = Forward # replicate k Normalize))"
proof -
  let ?a1 = "ex_args\<lparr>knnlm := True, save_knnlm_dstore := True\<rparr>"
  let ?a2 = "ex_args\<lparr>knnlm := True\<rparr>"
  have h1: "knnlm ?a1 \<and> save_knnlm_dstore ?a1" by (simp add: ex_args_def)
  have h2: "[ex_lm (1 / 100)] \<noteq> [] \<and> (\<forall>n. args_softmax_batch ?a1 = Some n \<longrightarrow> 0 \<le> n)
           \<and> remove_bpe ?a1 \<noteq> Some ''sentencepiece''"
    by (simp add: ex_args_def)
  from main_configuration_conflicts
         [of ?a1 ex_dict ex_dict ex_align "[ex_lm (1 / 100)]" ex_knn "[ex_sample]"] h1 h2
  have p1: "main ?a1 ex_dict ex_dict ex_align [ex_lm (1 / 100)] ex_knn [ex_sample]
     = Some (init_driver, Inl ValueError)"
    by blast
  have h3: "knnlm ?a2 \<and> \<not> save_knnlm_dstore ?a2
            \<and> 1 < length [ex_lm (1 / 100), ex_lm (1 / 50)]"
    by (simp add: ex_args_def)
  from main_configuration_conflicts
         [of ?a2 ex_dict ex_dict ex_align "[ex_lm (1 / 100), ex_lm (1 / 50)]" ex_knn
             "[ex_sample]"] h3
  obtain d e where
    m: "main ?a2 ex_dict ex_dict ex_align [ex_lm (1 / 100), ex_lm (1 / 50)] ex_knn [ex_sample]
          = Some (d, Inl e)"
    and d: "d = init_driver\<lparr>trace := trace d\<rparr>"
    and v: "e = ValueError \<longrightarrow> (\<exists>k. 0 < k \<and> trace d = Forward # replicate k Normalize)"
    by blast
  from m ex_main_ensemble_run have "e = ValueError" by simp
  with m d v p1 show ?thesis by blast
qed


end
